theory Spec2Isabelle
  imports Main
begin

section \<open>Strings as the program sees them\<close>

text \<open>
  A JavaScript string is a sequence of UTF-16 code units. The model is \<open>string\<close>, a list
  of \<open>char\<close>, each \<open>char\<close> read as one code unit below 256 (the Latin-1 range), which
  covers every character the patterns and keywords of the program mention. The character
  classes below are the ECMAScript ones restricted to that range.
\<close>

definition charCode :: "char \<Rightarrow> nat" where
  "charCode c = of_char c"

text \<open>\<^verbatim>\<open>\d\<close>: the ten ASCII digits; \<^verbatim>\<open>\D\<close> is its complement.\<close>

definition isDigit :: "char \<Rightarrow> bool" where
  "isDigit c = (48 \<le> charCode c \<and> charCode c \<le> 57)"

text \<open>\<^verbatim>\<open>[A-Za-z]\<close>.\<close>

definition isLetter :: "char \<Rightarrow> bool" where
  "isLetter c = ((65 \<le> charCode c \<and> charCode c \<le> 90) \<or> (97 \<le> charCode c \<and> charCode c \<le> 122))"

text \<open>\<^verbatim>\<open>\w\<close>: letters, digits and the underscore.\<close>

definition isWordChar :: "char \<Rightarrow> bool" where
  "isWordChar c = (isLetter c \<or> isDigit c \<or> charCode c = 95)"

text \<open>
  \<^verbatim>\<open>\s\<close>, and what \<^verbatim>\<open>String.prototype.trim\<close> strips: white space and line terminators
  (TAB, LF, VT, FF, CR, SP, NBSP below 256).
\<close>

definition isSpace :: "char \<Rightarrow> bool" where
  "isSpace c = (charCode c \<in> set [9, 10, 11, 12, 13, 32, 160])"

text \<open>The dot of a regular expression matches everything but a line terminator.\<close>

definition isLineTerminator :: "char \<Rightarrow> bool" where
  "isLineTerminator c = (charCode c = 10 \<or> charCode c = 13)"

text \<open>
  \<^verbatim>\<open>toLowerCase\<close>: below 256 the upper-case letters are A to Z and the Latin-1 letters
  0xC0 to 0xDE without the multiplication sign 0xD7; each maps to the code unit 32 above.
\<close>

definition toLowerChar :: "char \<Rightarrow> char" where
  "toLowerChar c =
     (if (65 \<le> charCode c \<and> charCode c \<le> 90) \<or>
         (192 \<le> charCode c \<and> charCode c \<le> 222 \<and> charCode c \<noteq> 215)
      then char_of (charCode c + 32) else c)"

definition toLowerCase :: "string \<Rightarrow> string" where
  "toLowerCase s = map toLowerChar s"

definition trim :: "string \<Rightarrow> string" where
  "trim s = rev (dropWhile isSpace (rev (dropWhile isSpace s)))"

text \<open>\<^verbatim>\<open>s.startsWith(p)\<close>.\<close>

definition startsWith :: "string \<Rightarrow> string \<Rightarrow> bool" where
  "startsWith s p = (take (length p) s = p)"

text \<open>\<^verbatim>\<open>s.includes(p)\<close>: \<open>p\<close> starts at some position of \<open>s\<close>.\<close>

fun includes_str :: "string \<Rightarrow> string \<Rightarrow> bool" where
  "includes_str [] p = (p = [])"
| "includes_str (c # cs) p = (startsWith (c # cs) p \<or> includes_str cs p)"

text \<open>
  \<^verbatim>\<open>s.split(sep)\<close> for a one-character separator: the pieces between the separators, in
  order; a string without the separator is its own single piece.
\<close>

fun split_str :: "char \<Rightarrow> string \<Rightarrow> string list" where
  "split_str sep [] = [[]]"
| "split_str sep (c # cs) =
     (if c = sep then [] # split_str sep cs
      else (case split_str sep cs of
              [] \<Rightarrow> [[c]]
            | w # ws \<Rightarrow> (c # w) # ws))"

text \<open>\<^verbatim>\<open>s.replace(p, '')\<close> with a string pattern: the first occurrence of \<open>p\<close> is removed.\<close>

fun replace_first :: "string \<Rightarrow> string \<Rightarrow> string" where
  "replace_first [] p = []"
| "replace_first (c # cs) p =
     (if startsWith (c # cs) p then drop (length p) (c # cs)
      else c # replace_first cs p)"

section \<open>Helpers: phone normalization\<close>

text \<open>
  \<^verbatim>\<open>Helpers.formatPhoneNumber\<close> (utils/helpers.js):
  \<^verbatim>\<open>
  const cleaned = phone.replace(/\D/g, '');
  if (cleaned.startsWith('0')) { return '+234' + cleaned.substring(1); }
  else if (!cleaned.startsWith('234')) { return '+234' + cleaned; }
  return '+' + cleaned;
  \<close>
\<close>

definition formatPhoneNumber :: "string \<Rightarrow> string" where
  "formatPhoneNumber phone =
     (let cleaned = filter isDigit phone in
      if startsWith cleaned ''0'' then ''+234'' @ drop 1 cleaned
      else if \<not> startsWith cleaned ''234'' then ''+234'' @ cleaned
      else ''+'' @ cleaned)"

text \<open>
  The normalization as the specification words it, step after step: strip the non-digits;
  if the digits start with 0, replace that 0 with 234; if they do not start with 234 by
  then, prepend 234; prefix the result with a plus sign.
\<close>

definition normalize_spec :: "string \<Rightarrow> string" where
  "normalize_spec phone =
     (let stripped = filter isDigit phone;
          replaced = (if startsWith stripped ''0'' then ''234'' @ drop 1 stripped else stripped);
          prepended = (if startsWith replaced ''234'' then replaced else ''234'' @ replaced)
      in ''+'' @ prepended)"

section \<open>OrderParser: phone candidates\<close>

text \<open>
  \<^verbatim>\<open>OrderParser.isPhoneNumber\<close>:
  \<^verbatim>\<open>
  const cleaned = str.replace(/\D/g, '');
  if (cleaned.length < 10 || cleaned.length > 15) { return false; }
  return (cleaned.startsWith('0') || cleaned.startsWith('234') ||
          cleaned.startsWith('1') || cleaned.length >= 10);
  \<close>
\<close>

definition isPhoneNumber :: "string \<Rightarrow> bool" where
  "isPhoneNumber str =
     (let cleaned = filter isDigit str in
      if length cleaned < 10 \<or> length cleaned > 15 then False
      else (startsWith cleaned ''0'' \<or> startsWith cleaned ''234'' \<or>
            startsWith cleaned ''1'' \<or> length cleaned \<ge> 10))"

section \<open>Regular expressions of the program\<close>

text \<open>
  The patterns of the program are built from quantified character classes, literal words,
  sequence and alternation. \<open>Rep p lo hi\<close> is the class \<open>p\<close> repeated at least \<open>lo\<close> and
  at most \<open>hi\<close> times (\<open>None\<close>: no upper bound).
\<close>

datatype regex =
    Rep "char \<Rightarrow> bool" nat "nat option"
  | Lit string
  | Seq regex regex
  | Alt regex regex

text \<open>
  \<open>rests r s\<close>: what is left of \<open>s\<close> after each way \<open>r\<close> can match at its start.
  \<^verbatim>\<open>RegExp.prototype.test\<close> only asks whether some match exists, so the order in which a
  backtracking matcher tries them does not matter.
\<close>

fun rests :: "regex \<Rightarrow> string \<Rightarrow> string list" where
  "rests (Rep p lo hi) s =
     (let n = length (takeWhile p s);
          m = (case hi of None \<Rightarrow> n | Some h \<Rightarrow> min h n)
      in map (\<lambda>k. drop k s) [lo ..< Suc m])"
| "rests (Lit w) s = (if startsWith s w then [drop (length w) s] else [])"
| "rests (Seq a b) s = concat (map (rests b) (rests a s))"
| "rests (Alt a b) s = rests a s @ rests b s"

fun seqs :: "regex list \<Rightarrow> regex" where
  "seqs [] = Lit []"
| "seqs [r] = r"
| "seqs (r # rs) = Seq r (seqs rs)"

fun alts :: "regex list \<Rightarrow> regex" where
  "alts [] = Rep (\<lambda>c. False) 1 (Some 1)"
| "alts [r] = r"
| "alts (r # rs) = Alt r (alts rs)"

text \<open>
  A pattern with its anchors and flag: \<open>fromStart\<close> for a leading \<^verbatim>\<open>^\<close>, \<open>toEnd\<close> for a
  trailing \<^verbatim>\<open>$\<close> (no pattern of the program has the multiline flag), \<open>ignoreCase\<close> for the
  \<^verbatim>\<open>i\<close> flag. Every pattern of the program that carries the \<^verbatim>\<open>i\<close> flag is made of
  lower-case words and of classes that case does not affect (digits, white space, the dot),
  so it matches a string exactly when it matches the string in lower case.
\<close>

record regexp =
  fromStart :: bool
  body :: regex
  toEnd :: bool
  ignoreCase :: bool

fun tails :: "string \<Rightarrow> string list" where
  "tails [] = [[]]"
| "tails (c # cs) = (c # cs) # tails cs"

text \<open>\<^verbatim>\<open>pattern.test(s)\<close>: the pattern matches at some position of \<open>s\<close>.\<close>

definition test :: "regexp \<Rightarrow> string \<Rightarrow> bool" where
  "test re s =
     (let subject = (if ignoreCase re then toLowerCase s else s) in
      list_ex (\<lambda>start. list_ex (\<lambda>rest. if toEnd re then rest = [] else True)
                               (rests (body re) start))
              (if fromStart re then [subject] else tails subject))"

text \<open>\<open>rx r\<close> is \<^verbatim>\<open>/r/\<close> and \<open>rxi r\<close> is \<^verbatim>\<open>/r/i\<close>.\<close>

definition rx :: "regex \<Rightarrow> regexp" where
  "rx r = \<lparr>fromStart = False, body = r, toEnd = False, ignoreCase = False\<rparr>"

definition rxi :: "regex \<Rightarrow> regexp" where
  "rxi r = \<lparr>fromStart = False, body = r, toEnd = False, ignoreCase = True\<rparr>"

definition anyChar :: "char \<Rightarrow> bool" where
  "anyChar c = (\<not> isLineTerminator c)"

section \<open>OrderParser: dates\<close>

text \<open>
  \<^verbatim>\<open>OrderParser.isDateString\<close>:
  \<^verbatim>\<open>
  const datePatterns = [
    /\d{1,2}\/\d{1,2}\/\d{4}/,
    /\d{1,2}-\d{1,2}-\d{4}/,
    /\d{4}-\d{1,2}-\d{1,2}/,
    /(tomorrow|today)/i,
    /(monday|tuesday|wednesday|thursday|friday|saturday|sunday)/i ];
  return datePatterns.some(pattern => pattern.test(str));
  \<close>
\<close>

definition datePatterns :: "regexp list" where
  "datePatterns =
     [rx (seqs [Rep isDigit 1 (Some 2), Lit ''/'', Rep isDigit 1 (Some 2), Lit ''/'',
                Rep isDigit 4 (Some 4)]),
      rx (seqs [Rep isDigit 1 (Some 2), Lit ''-'', Rep isDigit 1 (Some 2), Lit ''-'',
                Rep isDigit 4 (Some 4)]),
      rx (seqs [Rep isDigit 4 (Some 4), Lit ''-'', Rep isDigit 1 (Some 2), Lit ''-'',
                Rep isDigit 1 (Some 2)]),
      rxi (alts [Lit ''tomorrow'', Lit ''today'']),
      rxi (alts [Lit ''monday'', Lit ''tuesday'', Lit ''wednesday'', Lit ''thursday'',
                 Lit ''friday'', Lit ''saturday'', Lit ''sunday''])]"

definition isDateString :: "string \<Rightarrow> bool" where
  "isDateString str = list_ex (\<lambda>pattern. test pattern str) datePatterns"

text \<open>
  \<^verbatim>\<open>OrderParser.parseDate\<close> reads the current date and calls the date library
  (\<^verbatim>\<open>moment\<close>), which is not part of the repository; it returns a date formatted as
  \<^verbatim>\<open>YYYY-MM-DD\<close> or \<^verbatim>\<open>null\<close>, and its own \<^verbatim>\<open>try/catch\<close> turns every exception
  into \<^verbatim>\<open>null\<close>. The parser functions below take it as a parameter.
\<close>

type_synonym date_parser = "string \<Rightarrow> string option"

section \<open>OrderParser: the result objects\<close>

text \<open>
  The objects \<^verbatim>\<open>result\<close>, \<^verbatim>\<open>labeledData\<close>, \<^verbatim>\<open>unlabeledData\<close> and \<^verbatim>\<open>assignments\<close>:
  a property that was never set (\<^verbatim>\<open>undefined\<close>) or holds \<^verbatim>\<open>null\<close> is \<open>None\<close>.
\<close>

record fields =
  customerName :: "string option"
  phoneNumber :: "string option"
  address :: "string option"
  items :: "string option"
  deliveryDate :: "string option"

definition noFields :: fields where
  "noFields = \<lparr>customerName = None, phoneNumber = None, address = None, items = None,
               deliveryDate = None\<rparr>"

text \<open>
  JavaScript truthiness of a string-valued property: \<^verbatim>\<open>undefined\<close>, \<^verbatim>\<open>null\<close> and the
  empty string are falsy.
\<close>

fun truthy :: "string option \<Rightarrow> bool" where
  "truthy None = False"
| "truthy (Some s) = (s \<noteq> [])"

text \<open>\<^verbatim>\<open>xs[i]\<close>: \<^verbatim>\<open>undefined\<close> outside the array.\<close>

definition at_index :: "'a list \<Rightarrow> nat \<Rightarrow> 'a option" where
  "at_index xs i = (if i < length xs then Some (xs ! i) else None)"

text \<open>
  The exceptions of the program: calling a method on \<^verbatim>\<open>undefined\<close> throws a
  \<^verbatim>\<open>TypeError\<close>; \<^verbatim>\<open>database.query\<close> rejects when the store fails (\<open>QueryFailed\<close>) or
  when an insert breaks the \<^verbatim>\<open>UNIQUE\<close> constraint on \<^verbatim>\<open>order_id\<close>;
  \<^verbatim>\<open>updateOrderStatus\<close> throws \<^verbatim>\<open>Error(`Order ${orderId} not found`)\<close>.
\<close>

datatype exn = TypeError | QueryFailed | UniqueViolation | OrderNotFound string

section \<open>OrderParser: the labeled format\<close>

text \<open>
  One iteration of the loop of \<^verbatim>\<open>OrderParser.parseLabeledFormat\<close>:
  \<^verbatim>\<open>
  const lowerLine = line.toLowerCase();
  if (lowerLine.startsWith('name:')) { result.customerName = line.substring(5).trim(); }
  else if (lowerLine.includes('phone') && lowerLine.includes(':')) {
    result.phoneNumber = line.split(':')[1].trim(); }
  else if (lowerLine.startsWith('address:')) { result.address = line.substring(8).trim(); }
  else if (lowerLine.includes('item') && lowerLine.includes(':')) {
    result.items = line.split(':')[1].trim(); }
  else if (this.isDateString(line)) { result.deliveryDate = this.parseDate(line); }
  \<close>
\<close>

definition labeledLine :: "date_parser \<Rightarrow> fields \<Rightarrow> string \<Rightarrow> exn + fields" where
  "labeledLine parseDate result line =
     (let lowerLine = toLowerCase line in
      if startsWith lowerLine ''name:'' then
        Inr (result\<lparr>customerName := Some (trim (drop 5 line))\<rparr>)
      else if includes_str lowerLine ''phone'' \<and> includes_str lowerLine '':'' then
        (case at_index (split_str CHR '':'' line) 1 of
           None \<Rightarrow> Inl TypeError
         | Some piece \<Rightarrow> Inr (result\<lparr>phoneNumber := Some (trim piece)\<rparr>))
      else if startsWith lowerLine ''address:'' then
        Inr (result\<lparr>address := Some (trim (drop 8 line))\<rparr>)
      else if includes_str lowerLine ''item'' \<and> includes_str lowerLine '':'' then
        (case at_index (split_str CHR '':'' line) 1 of
           None \<Rightarrow> Inl TypeError
         | Some piece \<Rightarrow> Inr (result\<lparr>items := Some (trim piece)\<rparr>))
      else if isDateString line then
        Inr (result\<lparr>deliveryDate := parseDate line\<rparr>)
      else Inr result)"

fun labeledLoop :: "date_parser \<Rightarrow> fields \<Rightarrow> string list \<Rightarrow> exn + fields" where
  "labeledLoop parseDate result [] = Inr result"
| "labeledLoop parseDate result (line # rest) =
     (case labeledLine parseDate result line of
        Inl e \<Rightarrow> Inl e
      | Inr result' \<Rightarrow> labeledLoop parseDate result' rest)"

definition parseLabeledFormat :: "date_parser \<Rightarrow> string list \<Rightarrow> exn + fields" where
  "parseLabeledFormat parseDate lines = labeledLoop parseDate noFields lines"

section \<open>OrderParser: assigning the remaining lines\<close>

text \<open>
  The pattern families of \<^verbatim>\<open>OrderParser.assignRemainingFields\<close>:
  \<^verbatim>\<open>
  const namePatterns = [ /^[A-Za-z\s]{2,50}$/, /^[A-Za-z]+\s+[A-Za-z]+/ ];
  const addressPatterns = [
    /\d+.*(?:street|road|avenue|lane|close|way|estate|island|mainland)/i,
    /(?:no\.|number)\s*\d+/i, /\d+[,\s]/, /.{20,}/ ];
  const itemPatterns = [
    /(?:cake|food|pizza|burger|rice|chicken|beef|fish|drink|water|juice)/i,
    /\d+\s*(?:pack|piece|bottle|plate|portion)/i, /(?:\d+\s*x\s*|\d+\s+)/ ];
  \<close>
\<close>

definition namePatterns :: "regexp list" where
  "namePatterns =
     [\<lparr>fromStart = True, body = Rep (\<lambda>c. isLetter c \<or> isSpace c) 2 (Some 50), toEnd = True,
       ignoreCase = False\<rparr>,
      \<lparr>fromStart = True,
       body = seqs [Rep isLetter 1 None, Rep isSpace 1 None, Rep isLetter 1 None],
       toEnd = False, ignoreCase = False\<rparr>]"

definition addressPatterns :: "regexp list" where
  "addressPatterns =
     [rxi (seqs [Rep isDigit 1 None, Rep anyChar 0 None,
                 alts [Lit ''street'', Lit ''road'', Lit ''avenue'', Lit ''lane'', Lit ''close'',
                       Lit ''way'', Lit ''estate'', Lit ''island'', Lit ''mainland'']]),
      rxi (seqs [alts [Lit ''no.'', Lit ''number''], Rep isSpace 0 None, Rep isDigit 1 None]),
      rx (seqs [Rep isDigit 1 None, Rep (\<lambda>c. c = CHR '','' \<or> isSpace c) 1 (Some 1)]),
      rx (Rep anyChar 20 None)]"

definition itemPatterns :: "regexp list" where
  "itemPatterns =
     [rxi (alts [Lit ''cake'', Lit ''food'', Lit ''pizza'', Lit ''burger'', Lit ''rice'',
                 Lit ''chicken'', Lit ''beef'', Lit ''fish'', Lit ''drink'', Lit ''water'',
                 Lit ''juice'']),
      rxi (seqs [Rep isDigit 1 None, Rep isSpace 0 None,
                 alts [Lit ''pack'', Lit ''piece'', Lit ''bottle'', Lit ''plate'',
                       Lit ''portion'']]),
      rx (alts [seqs [Rep isDigit 1 None, Rep isSpace 0 None, Lit ''x'', Rep isSpace 0 None],
                seqs [Rep isDigit 1 None, Rep isSpace 1 None]])]"

text \<open>\<^verbatim>\<open>OrderParser.calculatePatternScore\<close>: the number of patterns that match.\<close>

definition calculatePatternScore :: "string \<Rightarrow> regexp list \<Rightarrow> nat" where
  "calculatePatternScore str patterns = length (filter (\<lambda>pattern. test pattern str) patterns)"

text \<open>The values of \<^verbatim>\<open>bestType\<close>: \<^verbatim>\<open>'name'\<close>, \<^verbatim>\<open>'address'\<close>, \<^verbatim>\<open>'items'\<close>.\<close>

datatype fieldType = NameType | AddressType | ItemsType

text \<open>
  An element of \<^verbatim>\<open>sortedByConfidence\<close>:
  \<^verbatim>\<open>
  { line, nameScore, addressScore, itemScore, index,
    maxScore: Math.max(score.nameScore, score.addressScore, score.itemScore),
    bestType: score.nameScore >= score.addressScore && score.nameScore >= score.itemScore
                ? 'name' : score.addressScore >= score.itemScore ? 'address' : 'items' }
  \<close>
\<close>

record confidence =
  scoredLine :: string
  nameScore :: nat
  addressScore :: nat
  itemScore :: nat
  scoredIndex :: nat
  maxScore :: nat
  bestType :: fieldType

definition confidenceOf :: "nat \<times> string \<Rightarrow> confidence" where
  "confidenceOf entry =
     (let line = snd entry;
          n = calculatePatternScore line namePatterns;
          a = calculatePatternScore line addressPatterns;
          i = calculatePatternScore line itemPatterns
      in \<lparr>scoredLine = line, nameScore = n, addressScore = a, itemScore = i,
          scoredIndex = fst entry,
          maxScore = max (max n a) i,
          bestType = (if n \<ge> a \<and> n \<ge> i then NameType
                      else if a \<ge> i then AddressType else ItemsType)\<rparr>)"

text \<open>
  \<^verbatim>\<open>.sort((a, b) => b.maxScore - a.maxScore)\<close>: descending by \<open>maxScore\<close>; the sort is
  stable, so elements of equal score keep their order.
\<close>

fun insertByMaxScore :: "confidence \<Rightarrow> confidence list \<Rightarrow> confidence list" where
  "insertByMaxScore x [] = [x]"
| "insertByMaxScore x (y # ys) =
     (if maxScore y < maxScore x then x # y # ys else y # insertByMaxScore x ys)"

definition sortByMaxScore :: "confidence list \<Rightarrow> confidence list" where
  "sortByMaxScore xs = foldl (\<lambda>sorted x. insertByMaxScore x sorted) [] xs"

text \<open>The flags \<^verbatim>\<open>assigned = { name, address, items }\<close>.\<close>

record assigned =
  nameAssigned :: bool
  addressAssigned :: bool
  itemsAssigned :: bool

text \<open>
  One iteration of the loop over \<^verbatim>\<open>sortedByConfidence\<close>: the line goes to the field of
  its best type if that field is still free, and is skipped otherwise.
\<close>

definition assignBest :: "fields \<times> assigned \<Rightarrow> confidence \<Rightarrow> fields \<times> assigned" where
  "assignBest state item =
     (let result = fst state; flags = snd state in
      if bestType item = NameType \<and> \<not> nameAssigned flags then
        (result\<lparr>customerName := Some (scoredLine item)\<rparr>, flags\<lparr>nameAssigned := True\<rparr>)
      else if bestType item = AddressType \<and> \<not> addressAssigned flags then
        (result\<lparr>address := Some (scoredLine item)\<rparr>, flags\<lparr>addressAssigned := True\<rparr>)
      else if bestType item = ItemsType \<and> \<not> itemsAssigned flags then
        (result\<lparr>items := Some (scoredLine item)\<rparr>, flags\<lparr>itemsAssigned := True\<rparr>)
      else state)"

text \<open>
  The tail of \<^verbatim>\<open>assignRemainingFields\<close>: the fields still free take the unassigned lines
  in order, name first, then address, then items.
  \<^verbatim>\<open>
  let unassignedIndex = 0;
  if (!assigned.name && unassignedIndex < unassignedLines.length) {
    result.customerName = unassignedLines[unassignedIndex++]; }
  if (!assigned.address && unassignedIndex < unassignedLines.length) {
    result.address = unassignedLines[unassignedIndex++]; }
  if (!assigned.items && unassignedIndex < unassignedLines.length) {
    result.items = unassignedLines[unassignedIndex++]; }
  \<close>
\<close>

definition fillUnassigned :: "fields \<Rightarrow> assigned \<Rightarrow> string list \<Rightarrow> fields" where
  "fillUnassigned result flags unassignedLines =
     (let s1 = (if \<not> nameAssigned flags \<and> 0 < length unassignedLines
                then (result\<lparr>customerName := Some (unassignedLines ! 0)\<rparr>, Suc 0)
                else (result, 0));
          s2 = (if \<not> addressAssigned flags \<and> snd s1 < length unassignedLines
                then ((fst s1)\<lparr>address := Some (unassignedLines ! snd s1)\<rparr>, Suc (snd s1))
                else s1);
          s3 = (if \<not> itemsAssigned flags \<and> snd s2 < length unassignedLines
                then ((fst s2)\<lparr>items := Some (unassignedLines ! snd s2)\<rparr>, Suc (snd s2))
                else s2)
      in fst s3)"

definition assignRemainingFields :: "string list \<Rightarrow> fields" where
  "assignRemainingFields lines =
     (let sortedByConfidence =
            sortByMaxScore (map confidenceOf (zip [0 ..< length lines] lines));
          state = foldl assignBest
                    (noFields, \<lparr>nameAssigned = False, addressAssigned = False,
                                itemsAssigned = False\<rparr>)
                    sortedByConfidence;
          result = fst state;
          unassignedLines =
            filter (\<lambda>line. Some line \<noteq> customerName result \<and> Some line \<noteq> address result \<and>
                            Some line \<noteq> items result) lines
      in fillUnassigned result (snd state) unassignedLines)"

section \<open>OrderParser: the unlabeled format\<close>

text \<open>
  \<^verbatim>\<open>if (assignments.customerName) result.customerName = assignments.customerName;\<close> and
  its two siblings.
\<close>

definition takeAssignments :: "fields \<Rightarrow> fields \<Rightarrow> fields" where
  "takeAssignments result assignments =
     (let r1 = (if truthy (customerName assignments)
                then result\<lparr>customerName := customerName assignments\<rparr> else result);
          r2 = (if truthy (address assignments)
                then r1\<lparr>address := address assignments\<rparr> else r1)
      in if truthy (items assignments) then r2\<lparr>items := items assignments\<rparr> else r2)"

text \<open>
  The date loop of \<^verbatim>\<open>parseUnlabeledFormat\<close>, one iteration:
  \<^verbatim>\<open>
  if (this.isDateString(line) && !usedLines.has(index)) {
    result.deliveryDate = this.parseDate(line); usedLines.add(index); }
  \<close>
\<close>

definition dateLine ::
  "date_parser \<Rightarrow> fields \<times> nat list \<Rightarrow> nat \<times> string \<Rightarrow> fields \<times> nat list" where
  "dateLine parseDate state entry =
     (if isDateString (snd entry) \<and> fst entry \<notin> set (snd state)
      then ((fst state)\<lparr>deliveryDate := parseDate (snd entry)\<rparr>, snd state @ [fst entry])
      else state)"

text \<open>
  \<^verbatim>\<open>OrderParser.parseUnlabeledFormat\<close>. The first phone candidate becomes the phone
  number and its index is used; every other line that is a date string is used, the last of
  them giving the delivery date; the lines left go through the branches
  \<^verbatim>\<open>
  if (remainingLines.length >= 3) {
    const assignments = this.assignRemainingFields(remainingLines); ... }
  else if (remainingLines.length >= 2) {
    if (remainingLines.length === 3) {
      result.customerName = remainingLines[0];
      result.address = remainingLines[1];
      result.items = remainingLines[2]; }
    else if (remainingLines.length === 2) {
      const assignments = this.assignRemainingFields(remainingLines); ... } }
  \<close>
\<close>

definition parseUnlabeledFormat :: "date_parser \<Rightarrow> string list \<Rightarrow> fields" where
  "parseUnlabeledFormat parseDate lines =
     (let indexed = zip [0 ..< length lines] lines;
          phoneNumbers = filter (\<lambda>entry. isPhoneNumber (snd entry)) indexed;
          afterPhone = (case phoneNumbers of
                          [] \<Rightarrow> (noFields, [])
                        | first # others \<Rightarrow>
                            (noFields\<lparr>phoneNumber := Some (trim (snd first))\<rparr>, [fst first]));
          afterDates = foldl (dateLine parseDate) afterPhone indexed;
          result = fst afterDates;
          usedLines = snd afterDates;
          remainingLines = map snd (filter (\<lambda>entry. fst entry \<notin> set usedLines) indexed)
      in if length remainingLines \<ge> 3 then
           takeAssignments result (assignRemainingFields remainingLines)
         else if length remainingLines \<ge> 2 then
           (if length remainingLines = 3 then
              result\<lparr>customerName := at_index remainingLines 0,
                      address := at_index remainingLines 1,
                      items := at_index remainingLines 2\<rparr>
            else if length remainingLines = 2 then
              takeAssignments result (assignRemainingFields remainingLines)
            else result)
         else result)"

section \<open>OrderParser: parseOrder\<close>

text \<open>
  The order data \<^verbatim>\<open>parseOrder\<close> returns: the four required fields are strings, the
  delivery date may be \<^verbatim>\<open>null\<close>.
\<close>

record orderData =
  od_customerName :: string
  od_phoneNumber :: string
  od_address :: string
  od_items :: string
  od_deliveryDate :: "string option"
  od_addedBy :: string

text \<open>
  \<^verbatim>\<open>messageBody.trim().split('\n').map(line => line.trim()).filter(line => line)\<close>
\<close>

definition messageLines :: "string \<Rightarrow> string list" where
  "messageLines messageBody =
     filter (\<lambda>line. line \<noteq> []) (map trim (split_str (CHR 0x0A) (trim messageBody)))"

text \<open>
  The five local variables of \<^verbatim>\<open>parseOrder\<close> after both passes: a labeled value is
  taken when it is truthy, and a heuristic value only fills a variable that is still falsy.
  The second pass runs only when one of the four required variables is falsy.
\<close>

definition keepTruthy :: "string option \<Rightarrow> string option" where
  "keepTruthy v = (if truthy v then v else None)"

definition fillMissing :: "string option \<Rightarrow> string option \<Rightarrow> string option" where
  "fillMissing current candidate =
     (if \<not> truthy current \<and> truthy candidate then candidate else current)"

definition mergeFields :: "date_parser \<Rightarrow> string list \<Rightarrow> exn + fields" where
  "mergeFields parseDate lines =
     (case parseLabeledFormat parseDate lines of
        Inl e \<Rightarrow> Inl e
      | Inr labeledData \<Rightarrow>
          (let first = \<lparr>customerName = keepTruthy (customerName labeledData),
                        phoneNumber = keepTruthy (phoneNumber labeledData),
                        address = keepTruthy (address labeledData),
                        items = keepTruthy (items labeledData),
                        deliveryDate = keepTruthy (deliveryDate labeledData)\<rparr>
           in if \<not> truthy (customerName first) \<or> \<not> truthy (phoneNumber first) \<or>
                 \<not> truthy (address first) \<or> \<not> truthy (items first)
              then (let unlabeledData = parseUnlabeledFormat parseDate lines in
                    Inr \<lparr>customerName =
                           fillMissing (customerName first) (customerName unlabeledData),
                         phoneNumber =
                           fillMissing (phoneNumber first) (phoneNumber unlabeledData),
                         address = fillMissing (address first) (address unlabeledData),
                         items = fillMissing (items first) (items unlabeledData),
                         deliveryDate =
                           fillMissing (deliveryDate first) (deliveryDate unlabeledData)\<rparr>)
              else Inr first))"

text \<open>
  The body of the \<^verbatim>\<open>try\<close> block of \<^verbatim>\<open>parseOrder\<close>: \<open>Inl\<close> is an exception thrown in
  it, \<open>Inr None\<close> a returned \<^verbatim>\<open>null\<close>. The validation
  \<^verbatim>\<open>if (!customerName || !phoneNumber || !address || !items) return null;\<close> rejects a
  variable that is \<^verbatim>\<open>null\<close> or the empty string; past it all four are non-empty strings.
\<close>

definition parseOrder_try :: "date_parser \<Rightarrow> string \<Rightarrow> string \<Rightarrow> exn + orderData option" where
  "parseOrder_try parseDate messageBody senderName =
     (let lines = messageLines messageBody in
      if length lines < 3 then Inr None
      else (case mergeFields parseDate lines of
              Inl e \<Rightarrow> Inl e
            | Inr merged \<Rightarrow>
                (case (customerName merged, phoneNumber merged, address merged, items merged) of
                   (Some n, Some p, Some a, Some i) \<Rightarrow>
                     (if n = [] \<or> p = [] \<or> a = [] \<or> i = [] then Inr None
                      else Inr (Some \<lparr>od_customerName = trim n, od_phoneNumber = trim p,
                                      od_address = trim a, od_items = trim i,
                                      od_deliveryDate = deliveryDate merged,
                                      od_addedBy = senderName\<rparr>))
                 | _ \<Rightarrow> Inr None)))"

text \<open>\<^verbatim>\<open>parseOrder\<close> with its \<^verbatim>\<open>catch\<close>, which logs the exception and returns \<^verbatim>\<open>null\<close>.\<close>

definition parseOrder :: "date_parser \<Rightarrow> string \<Rightarrow> string \<Rightarrow> orderData option" where
  "parseOrder parseDate messageBody senderName =
     (case parseOrder_try parseDate messageBody senderName of
        Inl e \<Rightarrow> None
      | Inr r \<Rightarrow> r)"

section \<open>The store\<close>

text \<open>
  The tables \<^verbatim>\<open>orders\<close> and \<^verbatim>\<open>order_history\<close> of config/database.js, without their
  serial \<^verbatim>\<open>id\<close> columns, which the program never reads. Timestamps are readings of a clock
  kept in the store. A statement on a table fails while the table's \<open>failing\<close> flag is set;
  the flags stand for every failure of \<^verbatim>\<open>database.query\<close> other than the \<^verbatim>\<open>UNIQUE\<close>
  constraint, which is modelled as it is declared.
\<close>

record order_row =
  order_id :: string
  customer_name :: string
  phone_number :: string
  row_address :: string
  row_items :: string
  delivery_date :: "string option"
  status :: string
  added_by :: string
  delivery_person :: "string option"
  created_at :: nat
  delivered_at :: "nat option"
  cancelled_at :: "nat option"

record history_row =
  h_order_id :: string
  h_status :: string
  changed_by :: string
  h_timestamp :: nat
  h_notes :: string

record database =
  orders :: "order_row list"
  order_history :: "history_row list"
  clock :: nat
  orders_failing :: bool
  history_failing :: bool

text \<open>
  \<^verbatim>\<open>INSERT INTO orders (order_id, customer_name, phone_number, address, items,
  delivery_date, added_by) VALUES (...) RETURNING *\<close>: the columns left out take their
  defaults (\<^verbatim>\<open>status DEFAULT 'pending'\<close>, \<^verbatim>\<open>created_at DEFAULT CURRENT_TIMESTAMP\<close>).
\<close>

definition insertOrder ::
  "database \<Rightarrow> string \<Rightarrow> string \<Rightarrow> string \<Rightarrow> string \<Rightarrow> string \<Rightarrow> string option \<Rightarrow> string
   \<Rightarrow> exn + (order_row \<times> database)" where
  "insertOrder db orderId customer phone addr things date addedBy =
     (if orders_failing db then Inl QueryFailed
      else if list_ex (\<lambda>r. order_id r = orderId) (orders db) then Inl UniqueViolation
      else (let row = \<lparr>order_id = orderId, customer_name = customer, phone_number = phone,
                       row_address = addr, row_items = things, delivery_date = date,
                       status = ''pending'', added_by = addedBy, delivery_person = None,
                       created_at = clock db, delivered_at = None, cancelled_at = None\<rparr>
            in Inr (row, db\<lparr>orders := orders db @ [row]\<rparr>)))"

text \<open>
  \<^verbatim>\<open>UPDATE orders SET ... WHERE order_id = $n RETURNING *\<close>: every row with that id is
  changed, and the changed rows are returned.
\<close>

definition updateOrders ::
  "database \<Rightarrow> string \<Rightarrow> (order_row \<Rightarrow> order_row) \<Rightarrow> exn + (order_row list \<times> database)" where
  "updateOrders db orderId change =
     (if orders_failing db then Inl QueryFailed
      else Inr (map change (filter (\<lambda>r. order_id r = orderId) (orders db)),
                db\<lparr>orders := map (\<lambda>r. if order_id r = orderId then change r else r)
                                    (orders db)\<rparr>))"

text \<open>\<^verbatim>\<open>INSERT INTO order_history (order_id, status, changed_by, notes) VALUES (...)\<close>\<close>

definition insertHistory ::
  "database \<Rightarrow> string \<Rightarrow> string \<Rightarrow> string \<Rightarrow> string \<Rightarrow> exn + database" where
  "insertHistory db orderId newStatus changedBy note =
     (if history_failing db then Inl QueryFailed
      else Inr (db\<lparr>order_history := order_history db @
                     [\<lparr>h_order_id = orderId, h_status = newStatus, changed_by = changedBy,
                       h_timestamp = clock db, h_notes = note\<rparr>]\<rparr>))"

section \<open>OrderService\<close>

text \<open>
  \<^verbatim>\<open>OrderService.addOrderHistory\<close>:
  \<^verbatim>\<open>
  try { await database.query(query, [orderId, status, changedBy, notes]); }
  catch (error) { logger.error('Error adding order history:', error); }
  \<close>
  The \<^verbatim>\<open>catch\<close> logs and does not rethrow, so the function always returns.
\<close>

definition addOrderHistory ::
  "database \<Rightarrow> string \<Rightarrow> string \<Rightarrow> string \<Rightarrow> string \<Rightarrow> database" where
  "addOrderHistory db orderId newStatus changedBy note =
     (case insertHistory db orderId newStatus changedBy note of
        Inl e \<Rightarrow> db
      | Inr db' \<Rightarrow> db')"

text \<open>
  \<^verbatim>\<open>OrderService.createOrder\<close>; the order id comes from \<^verbatim>\<open>Helpers.generateOrderId\<close>
  (the current date and a random number) and is a parameter here. The \<^verbatim>\<open>catch\<close> logs and
  rethrows. Nothing is written before an exception is thrown, so \<open>Inl\<close> carries no store.
  \<^verbatim>\<open>
  const values = [orderId, orderData.customerName,
    Helpers.formatPhoneNumber(orderData.phoneNumber), orderData.address, orderData.items,
    orderData.deliveryDate, orderData.addedBy];
  const result = await database.query(query, values);
  await this.addOrderHistory(orderId, 'pending', orderData.addedBy, 'Order created');
  return result.rows[0];
  \<close>
\<close>

definition createOrder :: "database \<Rightarrow> string \<Rightarrow> orderData \<Rightarrow> exn + (order_row \<times> database)" where
  "createOrder db orderId orderData =
     (case insertOrder db orderId (od_customerName orderData)
             (formatPhoneNumber (od_phoneNumber orderData)) (od_address orderData)
             (od_items orderData) (od_deliveryDate orderData) (od_addedBy orderData) of
        Inl e \<Rightarrow> Inl e
      | Inr inserted \<Rightarrow>
          Inr (fst inserted,
               addOrderHistory (snd inserted) orderId ''pending'' (od_addedBy orderData)
                 ''Order created''))"

text \<open>
  \<^verbatim>\<open>OrderService.updateOrderStatus(orderId, status, changedBy, deliveryPerson = null)\<close>:
  the \<^verbatim>\<open>SET\<close> clause depends on the status; no row changed means the order is not found;
  otherwise the history entry is added and the first changed row returned.
\<close>

definition updateOrderStatus ::
  "database \<Rightarrow> string \<Rightarrow> string \<Rightarrow> string \<Rightarrow> string option \<Rightarrow> exn + (order_row \<times> database)" where
  "updateOrderStatus db orderId newStatus changedBy deliveryPerson =
     (let change =
            (if newStatus = ''delivered'' then
               (\<lambda>r. r\<lparr>status := newStatus, delivery_person := deliveryPerson,
                       delivered_at := Some (clock db)\<rparr>)
             else if newStatus = ''cancelled'' then
               (\<lambda>r. r\<lparr>status := newStatus, cancelled_at := Some (clock db)\<rparr>)
             else
               (\<lambda>r. r\<lparr>status := newStatus, delivery_person := deliveryPerson\<rparr>))
      in case updateOrders db orderId change of
           Inl e \<Rightarrow> Inl e
         | Inr updated \<Rightarrow>
             (case fst updated of
                [] \<Rightarrow> Inl (OrderNotFound orderId)
              | row # others \<Rightarrow>
                  Inr (row, addOrderHistory (snd updated) orderId newStatus changedBy
                              (''Status changed to '' @ newStatus))))"

text \<open>
  \<^verbatim>\<open>OrderService.getOrderById\<close>: \<^verbatim>\<open>SELECT * FROM orders WHERE order_id = $1\<close>, then
  \<^verbatim>\<open>result.rows[0] || null\<close>. The comparison of \<^verbatim>\<open>order_id\<close> is case-sensitive.
\<close>

definition getOrderById :: "database \<Rightarrow> string \<Rightarrow> exn + order_row option" where
  "getOrderById db orderId =
     (if orders_failing db then Inl QueryFailed
      else Inr (find (\<lambda>r. order_id r = orderId) (orders db)))"

section \<open>WhatsAppService: the delivery group\<close>

text \<open>
  The messages the service sends to the delivery group, by their wording:
  \<^item> \<open>NotFound\<close>: \<^verbatim>\<open>Order #id not found.\<close>
  \<^item> \<open>AlreadyDelivered\<close>: \<^verbatim>\<open>Order #id is already marked as delivered.\<close>
  \<^item> \<open>CannotDeliverCancelled\<close>: \<^verbatim>\<open>Cannot mark cancelled order #id as delivered.\<close> (the
    specification's \<^verbatim>\<open>InvalidTransition\<close>)
  \<^item> \<open>MarkedDelivered\<close>: \<^verbatim>\<open>Order #id marked as delivered by person.\<close>
  \<^item> \<open>ErrorUpdating\<close>: \<^verbatim>\<open>Error updating order #id. Please try again.\<close>
  \<^item> \<open>AlreadyCancelled\<close>: \<^verbatim>\<open>Order #id is already cancelled.\<close>
  \<^item> \<open>CannotCancelDelivered\<close>: \<^verbatim>\<open>Cannot cancel delivered order #id.\<close> (the specification's
    \<^verbatim>\<open>InvalidTransition\<close>)
  \<^item> \<open>CancelledBy\<close>: \<^verbatim>\<open>Order #id cancelled by person.\<close>
  \<^item> \<open>ErrorCancelling\<close>: \<^verbatim>\<open>Error cancelling order #id. Please try again.\<close>
  \<^item> the four reports and the help text, whose contents are outside the core.
  Sending is the messaging transport's work and is not modelled as failing.
\<close>

datatype reply =
    NotFound string
  | AlreadyDelivered string
  | CannotDeliverCancelled string
  | MarkedDelivered string string
  | ErrorUpdating string
  | AlreadyCancelled string
  | CannotCancelDelivered string
  | CancelledBy string string
  | ErrorCancelling string
  | DailyReport
  | PendingOrders
  | WeeklyReport
  | MonthlyReport
  | HelpMessage

text \<open>
  \<^verbatim>\<open>markOrderAsDelivered\<close> after its first \<^verbatim>\<open>await\<close>: \<open>lookup\<close> is what
  \<^verbatim>\<open>OrderService.getOrderById\<close> gave, \<open>db\<close> the store at the time the function resumes.
  \<^verbatim>\<open>
  if (!order) { send(`Order #${orderId} not found.`); return; }
  if (order.status === 'delivered') { send(`... is already marked as delivered.`); return; }
  if (order.status === 'cancelled') { send(`Cannot mark cancelled order ...`); return; }
  await OrderService.updateOrderStatus(orderId, 'delivered', deliveryPerson, deliveryPerson);
  send(`Order #${orderId} marked as delivered by ${deliveryPerson}.`);
  \<close>
  The \<^verbatim>\<open>catch\<close> around the whole body sends \<^verbatim>\<open>Error updating order\<close>.
\<close>

definition deliverAfterLookup ::
  "database \<Rightarrow> string \<Rightarrow> string \<Rightarrow> exn + order_row option \<Rightarrow> database \<times> reply" where
  "deliverAfterLookup db orderId deliveryPerson lookup =
     (case lookup of
        Inl e \<Rightarrow> (db, ErrorUpdating orderId)
      | Inr None \<Rightarrow> (db, NotFound orderId)
      | Inr (Some order) \<Rightarrow>
          if status order = ''delivered'' then (db, AlreadyDelivered orderId)
          else if status order = ''cancelled'' then (db, CannotDeliverCancelled orderId)
          else (case updateOrderStatus db orderId ''delivered'' deliveryPerson
                       (Some deliveryPerson) of
                  Inl e \<Rightarrow> (db, ErrorUpdating orderId)
                | Inr updated \<Rightarrow> (snd updated, MarkedDelivered orderId deliveryPerson)))"

text \<open>\<^verbatim>\<open>WhatsAppService.markOrderAsDelivered\<close>, run without interruption.\<close>

definition markOrderAsDelivered :: "database \<Rightarrow> string \<Rightarrow> string \<Rightarrow> database \<times> reply" where
  "markOrderAsDelivered db orderId deliveryPerson =
     deliverAfterLookup db orderId deliveryPerson (getOrderById db orderId)"

text \<open>
  \<^verbatim>\<open>cancelOrder\<close> after its first \<^verbatim>\<open>await\<close>; it calls
  \<^verbatim>\<open>OrderService.updateOrderStatus(orderId, 'cancelled', cancelledBy)\<close>, the delivery
  person taking its default \<^verbatim>\<open>null\<close>.
\<close>

definition cancelAfterLookup ::
  "database \<Rightarrow> string \<Rightarrow> string \<Rightarrow> exn + order_row option \<Rightarrow> database \<times> reply" where
  "cancelAfterLookup db orderId cancelledBy lookup =
     (case lookup of
        Inl e \<Rightarrow> (db, ErrorCancelling orderId)
      | Inr None \<Rightarrow> (db, NotFound orderId)
      | Inr (Some order) \<Rightarrow>
          if status order = ''cancelled'' then (db, AlreadyCancelled orderId)
          else if status order = ''delivered'' then (db, CannotCancelDelivered orderId)
          else (case updateOrderStatus db orderId ''cancelled'' cancelledBy None of
                  Inl e \<Rightarrow> (db, ErrorCancelling orderId)
                | Inr updated \<Rightarrow> (snd updated, CancelledBy orderId cancelledBy)))"

text \<open>\<^verbatim>\<open>WhatsAppService.cancelOrder\<close>, run without interruption.\<close>

definition cancelOrder :: "database \<Rightarrow> string \<Rightarrow> string \<Rightarrow> database \<times> reply" where
  "cancelOrder db orderId cancelledBy =
     cancelAfterLookup db orderId cancelledBy (getOrderById db orderId)"

text \<open>
  \<^verbatim>\<open>extractOrderIdFromMessage\<close>: \<^verbatim>\<open>messageBody.match(/Order #(\w+)/)\<close>, then group 1 of
  the match or \<^verbatim>\<open>null\<close>: the word characters after the first \<^verbatim>\<open>Order #\<close> that is
  followed by one.
\<close>

fun extractOrderIdFromMessage :: "string \<Rightarrow> string option" where
  "extractOrderIdFromMessage [] = None"
| "extractOrderIdFromMessage (c # cs) =
     (if startsWith (c # cs) ''Order #'' \<and> takeWhile isWordChar (drop 7 (c # cs)) \<noteq> []
      then Some (takeWhile isWordChar (drop 7 (c # cs)))
      else extractOrderIdFromMessage cs)"

text \<open>
  What \<^verbatim>\<open>handleDeliveryGroupMessage\<close> reads of a message and its contact: the body,
  whether it quotes a message and that message's body, whether the bot itself sent it
  (\<^verbatim>\<open>contact.isMe\<close>), and the sender (\<^verbatim>\<open>contact.name || contact.number\<close>).
\<close>

record message =
  msg_body :: string
  hasQuotedMsg :: bool
  quotedBody :: string
  isMe :: bool
  sender :: string

text \<open>A handler that sent one message.\<close>

definition sent :: "database \<times> reply \<Rightarrow> database \<times> reply list" where
  "sent outcome = (fst outcome, [snd outcome])"

text \<open>
  \<^verbatim>\<open>WhatsAppService.handleDeliveryGroupMessage\<close>, with \<^verbatim>\<open>handleReplyCompletion\<close> and
  \<^verbatim>\<open>handleReplyCancellation\<close> inlined. It returns the store and the messages sent.
  \<^verbatim>\<open>
  if (contact.isMe) return;
  const messageBody = message.body.toLowerCase().trim();
  if (message.hasQuotedMsg && messageBody === 'done') { reply completion }
  else if (message.hasQuotedMsg && messageBody === 'cancel') { reply cancellation }
  else if (messageBody.startsWith('done #')) {
    const orderId = messageBody.replace('done #', '').trim();
    await this.markOrderAsDelivered(orderId, senderName); }
  else if (messageBody.startsWith('cancel #')) {
    const orderId = messageBody.replace('cancel #', '').trim();
    await this.cancelOrder(orderId, senderName); }
  else if (messageBody === '/daily') ... '/pending' ... '/weekly' ... '/monthly' ... '/help'
  \<close>
\<close>

definition handleDeliveryGroupMessage :: "database \<Rightarrow> message \<Rightarrow> database \<times> reply list" where
  "handleDeliveryGroupMessage db m =
     (if isMe m then (db, [])
      else (let messageBody = trim (toLowerCase (msg_body m)); senderName = sender m in
            if hasQuotedMsg m \<and> messageBody = ''done'' then
              (case extractOrderIdFromMessage (quotedBody m) of
                 None \<Rightarrow> (db, [])
               | Some orderId \<Rightarrow> sent (markOrderAsDelivered db orderId senderName))
            else if hasQuotedMsg m \<and> messageBody = ''cancel'' then
              (case extractOrderIdFromMessage (quotedBody m) of
                 None \<Rightarrow> (db, [])
               | Some orderId \<Rightarrow> sent (cancelOrder db orderId senderName))
            else if startsWith messageBody ''done #'' then
              sent (markOrderAsDelivered db
                      (trim (replace_first messageBody ''done #'')) senderName)
            else if startsWith messageBody ''cancel #'' then
              sent (cancelOrder db (trim (replace_first messageBody ''cancel #'')) senderName)
            else if messageBody = ''/daily'' then (db, [DailyReport])
            else if messageBody = ''/pending'' then (db, [PendingOrders])
            else if messageBody = ''/weekly'' then (db, [WeeklyReport])
            else if messageBody = ''/monthly'' then (db, [MonthlyReport])
            else if messageBody = ''/help'' then (db, [HelpMessage])
            else (db, [])))"

section \<open>WhatsAppService: handlers in flight together\<close>

text \<open>
  Every message is handled by an asynchronous function. A handler runs without interruption
  between two \<^verbatim>\<open>await\<close>s; while it waits, the handler of another message may run.
  \<^verbatim>\<open>markOrderAsDelivered\<close> and \<^verbatim>\<open>cancelOrder\<close> wait once between reading the order and
  acting on what they read, so each is two turns here.
\<close>

text \<open>A request to deliver or to cancel an order: the order id and the sender.\<close>

datatype request = Deliver string string | Cancel string string

text \<open>
  A handler in flight: started, or resumed from its first \<^verbatim>\<open>await\<close> with what
  \<^verbatim>\<open>getOrderById\<close> gave it, or finished with the message it sent.
\<close>

datatype task = Started request | Looked request "exn + order_row option" | Finished reply

text \<open>One handler runs up to its next \<^verbatim>\<open>await\<close>, or to its end.\<close>

fun step :: "database \<Rightarrow> task \<Rightarrow> database \<times> task" where
  "step db (Started (Deliver orderId person)) =
     (db, Looked (Deliver orderId person) (getOrderById db orderId))"
| "step db (Started (Cancel orderId person)) =
     (db, Looked (Cancel orderId person) (getOrderById db orderId))"
| "step db (Looked (Deliver orderId person) lookup) =
     (let outcome = deliverAfterLookup db orderId person lookup
      in (fst outcome, Finished (snd outcome)))"
| "step db (Looked (Cancel orderId person) lookup) =
     (let outcome = cancelAfterLookup db orderId person lookup
      in (fst outcome, Finished (snd outcome)))"
| "step db (Finished r) = (db, Finished r)"

text \<open>
  A schedule names, turn after turn, the handler that runs next; the clock advances with
  every turn.
\<close>

fun run :: "nat list \<Rightarrow> database \<times> task list \<Rightarrow> database \<times> task list" where
  "run [] state = state"
| "run (i # schedule) state =
     (if i < length (snd state) then
        (let moved = step (fst state) (snd state ! i)
         in run schedule ((fst moved)\<lparr>clock := Suc (clock (fst moved))\<rparr>,
                          (snd state)[i := snd moved]))
      else run schedule state)"

section \<open>Notions used to state the claims about the lifecycle\<close>

text \<open>The history entries of one order, in the order they were written.\<close>

definition historyOf :: "database \<Rightarrow> string \<Rightarrow> history_row list" where
  "historyOf db orderId = filter (\<lambda>h. h_order_id h = orderId) (order_history db)"

text \<open>Every history entry belongs to an order of the store.\<close>

definition historyConsistent :: "database \<Rightarrow> bool" where
  "historyConsistent db =
     list_all (\<lambda>h. list_ex (\<lambda>r. order_id r = h_order_id h) (orders db)) (order_history db)"

section \<open>Notions used to state the claims about the labeled format\<close>

text \<open>The entire text after the first colon of a line.\<close>

definition afterFirstColon :: "string \<Rightarrow> string" where
  "afterFirstColon line = drop 1 (dropWhile (\<lambda>c. c \<noteq> CHR '':'') line)"

text \<open>The line holds exactly one colon.\<close>

definition oneColon :: "string \<Rightarrow> bool" where
  "oneColon line = (length (filter (\<lambda>c. c = CHR '':'') line) = 1)"

text \<open>
  The line reaches the phone branch of the loop: it does not start with \<^verbatim>\<open>name:\<close>, and
  it contains \<^verbatim>\<open>phone\<close> and a colon.
\<close>

definition phoneLabeled :: "string \<Rightarrow> bool" where
  "phoneLabeled line =
     (let lowerLine = toLowerCase line in
      \<not> startsWith lowerLine ''name:'' \<and>
      includes_str lowerLine ''phone'' \<and> includes_str lowerLine '':'')"

text \<open>
  The line reaches the items branch of the loop: none of the three branches before it takes
  the line, and it contains \<^verbatim>\<open>item\<close> and a colon.
\<close>

definition itemsLabeled :: "string \<Rightarrow> bool" where
  "itemsLabeled line =
     (let lowerLine = toLowerCase line in
      \<not> startsWith lowerLine ''name:'' \<and>
      \<not> (includes_str lowerLine ''phone'' \<and> includes_str lowerLine '':'') \<and>
      \<not> startsWith lowerLine ''address:'' \<and>
      includes_str lowerLine ''item'' \<and> includes_str lowerLine '':'')"

section \<open>Notions used in the proofs about the parser\<close>

text \<open>A value that is absent, or a string that trimming leaves unchanged.\<close>

definition trimmedOpt :: "string option \<Rightarrow> bool" where
  "trimmedOpt v = (case v of None \<Rightarrow> True | Some s \<Rightarrow> trim s = s)"

text \<open>The four required fields hold no surrounding white space.\<close>

definition trimmedRequired :: "fields \<Rightarrow> bool" where
  "trimmedRequired r =
     (trimmedOpt (customerName r) \<and> trimmedOpt (phoneNumber r) \<and>
      trimmedOpt (address r) \<and> trimmedOpt (items r))"

text \<open>Two result objects agree on the four required fields.\<close>

definition sameRequired :: "fields \<Rightarrow> fields \<Rightarrow> bool" where
  "sameRequired r r' =
     (customerName r = customerName r' \<and> phoneNumber r = phoneNumber r' \<and>
      address r = address r' \<and> items r = items r')"

text \<open>A value that is absent, or one of the given lines.\<close>

definition fromLines :: "string list \<Rightarrow> string option \<Rightarrow> bool" where
  "fromLines ls v = (case v of None \<Rightarrow> True | Some s \<Rightarrow> s \<in> set ls)"

text \<open>Name, address and items are absent or taken from the given lines.\<close>

definition chosenFrom :: "string list \<Rightarrow> fields \<Rightarrow> bool" where
  "chosenFrom ls r =
     (fromLines ls (customerName r) \<and> fromLines ls (address r) \<and> fromLines ls (items r))"

text \<open>The result object and the used indices of \<^verbatim>\<open>parseUnlabeledFormat\<close> after the phone step.\<close>

definition afterPhoneOf :: "string list \<Rightarrow> fields \<times> nat list" where
  "afterPhoneOf lines =
     (case filter (\<lambda>entry. isPhoneNumber (snd entry)) (zip [0 ..< length lines] lines) of
        [] \<Rightarrow> (noFields, [])
      | first # others \<Rightarrow> (noFields\<lparr>phoneNumber := Some (trim (snd first))\<rparr>, [fst first]))"

text \<open>The same after the date loop.\<close>

definition afterDatesOf :: "date_parser \<Rightarrow> string list \<Rightarrow> fields \<times> nat list" where
  "afterDatesOf parseDate lines =
     foldl (dateLine parseDate) (afterPhoneOf lines) (zip [0 ..< length lines] lines)"

text \<open>The lines \<^verbatim>\<open>parseUnlabeledFormat\<close> leaves for name, address and items.\<close>

definition remainingOf :: "date_parser \<Rightarrow> string list \<Rightarrow> string list" where
  "remainingOf parseDate lines =
     map snd (filter (\<lambda>entry. fst entry \<notin> set (snd (afterDatesOf parseDate lines)))
                     (zip [0 ..< length lines] lines))"

text \<open>A variable of \<^verbatim>\<open>parseOrder\<close> that is \<^verbatim>\<open>null\<close> or a non-empty string.\<close>

definition settled :: "string option \<Rightarrow> bool" where
  "settled v = (case v of None \<Rightarrow> True | Some s \<Rightarrow> s \<noteq> [])"

section \<open>Example data\<close>

text \<open>The order data of the specification's end-to-end scenario, without a delivery date.\<close>

definition sampleDraft :: orderData where
  "sampleDraft = \<lparr>od_customerName = ''Amaka Obi'', od_phoneNumber = ''08012345678'',
     od_address = ''12 Allen Avenue, Ikeja'', od_items = ''2x Jollof rice, 1 chicken'',
     od_deliveryDate = None, od_addedBy = ''Sales''\<rparr>"

text \<open>The row \<^verbatim>\<open>createOrder\<close> inserts for it under the id \<^verbatim>\<open>ORD20240115042\<close> at time 100.\<close>

definition sampleOrder :: order_row where
  "sampleOrder = \<lparr>order_id = ''ORD20240115042'', customer_name = ''Amaka Obi'',
     phone_number = ''+2348012345678'', row_address = ''12 Allen Avenue, Ikeja'',
     row_items = ''2x Jollof rice, 1 chicken'', delivery_date = None, status = ''pending'',
     added_by = ''Sales'', delivery_person = None, created_at = 100, delivered_at = None,
     cancelled_at = None\<rparr>"

text \<open>A store with no rows, whose tables work.\<close>

definition emptyStore :: database where
  "emptyStore = \<lparr>orders = [], order_history = [], clock = 100, orders_failing = False,
     history_failing = False\<rparr>"

text \<open>The history entry written when that order is created.\<close>

definition createdEntry :: history_row where
  "createdEntry = \<lparr>h_order_id = ''ORD20240115042'', h_status = ''pending'',
     changed_by = ''Sales'', h_timestamp = 100, h_notes = ''Order created''\<rparr>"

text \<open>The store after that order has been created.\<close>

definition pendingStore :: database where
  "pendingStore = \<lparr>orders = [sampleOrder], order_history = [createdEntry], clock = 100,
     orders_failing = False, history_failing = False\<rparr>"

text \<open>A store with no rows whose \<^verbatim>\<open>order_history\<close> table fails.\<close>

definition historyDownStore :: database where
  "historyDownStore = \<lparr>orders = [], order_history = [], clock = 100, orders_failing = False,
     history_failing = True\<rparr>"

section \<open>Facts about the string functions\<close>

lemma charCode_char_of: "n < 256 \<Longrightarrow> charCode (char_of n) = n"
  by (simp add: charCode_def)

lemma includes_str_single: "includes_str s [c] \<longleftrightarrow> c \<in> set s"
  by (induction s) (auto simp: startsWith_def)

lemma split_str_nonempty: "split_str sep s \<noteq> []"
  by (induction s) (auto split: list.splits)

lemma length_split_str: "length (split_str sep s) = Suc (length (filter (\<lambda>c. c = sep) s))"
  by (induction s) (auto split: list.splits simp: split_str_nonempty)

lemma split_str_no_sep: "sep \<notin> set s \<Longrightarrow> split_str sep s = [s]"
  by (induction s) auto

lemma split_str_first_sep:
  "sep \<notin> set a \<Longrightarrow> split_str sep (a @ sep # b) = a # split_str sep b"
  by (induction a) (auto split: list.splits simp: split_str_nonempty)

lemma toLowerChar_colon: "toLowerChar c = CHR '':'' \<longleftrightarrow> c = CHR '':''"
proof
  assume h: "toLowerChar c = CHR '':''"
  show "c = CHR '':''"
  proof (rule ccontr)
    assume n: "c \<noteq> CHR '':''"
    with h have up: "(65 \<le> charCode c \<and> charCode c \<le> 90) \<or>
         (192 \<le> charCode c \<and> charCode c \<le> 222 \<and> charCode c \<noteq> 215)"
      unfolding toLowerChar_def by (metis)
    with h have eq: "char_of (charCode c + 32) = CHR '':''"
      unfolding toLowerChar_def by simp
    from up have "charCode c + 32 < 256" by auto
    then have "charCode (char_of (charCode c + 32)) = charCode c + 32"
      by (rule charCode_char_of)
    with eq have "charCode c + 32 = charCode CHR '':''" by simp
    then have "charCode c + 32 = 58" by (simp add: charCode_def)
    with up show False by auto
  qed
next
  assume "c = CHR '':''"
  then show "toLowerChar c = CHR '':''" by (simp add: toLowerChar_def charCode_def)
qed

lemma lower_includes_colon:
  "includes_str (toLowerCase line) '':'' \<longleftrightarrow> CHR '':'' \<in> set line"
proof -
  have "CHR '':'' \<in> toLowerChar ` set line \<longleftrightarrow> CHR '':'' \<in> set line"
    by (metis (no_types, lifting) image_iff toLowerChar_colon)
  then show ?thesis by (simp add: includes_str_single toLowerCase_def)
qed

lemma split_at_first:
  assumes "sep \<in> set s"
  shows "s = takeWhile (\<lambda>c. c \<noteq> sep) s @ sep # drop 1 (dropWhile (\<lambda>c. c \<noteq> sep) s)"
  using assms by (induction s) auto

lemma filter_sep_Nil: "filter (\<lambda>c. c = sep) s = [] \<longleftrightarrow> sep \<notin> set s"
  by (induction s) auto

lemma split_str_one_sep:
  assumes "length (filter (\<lambda>c. c = sep) s) = 1"
  shows "split_str sep s = [takeWhile (\<lambda>c. c \<noteq> sep) s, drop 1 (dropWhile (\<lambda>c. c \<noteq> sep) s)]"
proof -
  let ?a = "takeWhile (\<lambda>c. c \<noteq> sep) s" and ?b = "drop 1 (dropWhile (\<lambda>c. c \<noteq> sep) s)"
  have "sep \<in> set s"
  proof (rule ccontr)
    assume "sep \<notin> set s"
    then have "filter (\<lambda>c. c = sep) s = []" by (simp add: filter_sep_Nil)
    with assms show False by simp
  qed
  then have s: "s = ?a @ sep # ?b" by (rule split_at_first)
  have a: "sep \<notin> set ?a" by (auto dest: set_takeWhileD)
  then have fa: "filter (\<lambda>c. c = sep) ?a = []" by (simp add: filter_sep_Nil)
  have "length (filter (\<lambda>c. c = sep) (?a @ sep # ?b)) = 1" using assms s by simp
  then have "filter (\<lambda>c. c = sep) ?b = []" using fa by simp
  then have b: "sep \<notin> set ?b" by (simp add: filter_sep_Nil)
  have "split_str sep (?a @ sep # ?b) = ?a # split_str sep ?b"
    using a by (rule split_str_first_sep)
  then have "split_str sep (?a @ sep # ?b) = [?a, ?b]" using b by (simp add: split_str_no_sep)
  then show ?thesis using s by simp
qed

lemma at_index_split_colon:
  "CHR '':'' \<in> set line \<Longrightarrow> \<exists>piece. at_index (split_str CHR '':'' line) 1 = Some piece"
  proof -
  assume "CHR '':'' \<in> set line"
  then have "filter (\<lambda>c. c = CHR '':'') line \<noteq> []" by (simp add: filter_sep_Nil)
  then have "0 < length (filter (\<lambda>c. c = CHR '':'') line)" by simp
  then show ?thesis by (simp add: at_index_def length_split_str)
qed



lemma isDigit_plus: "\<not> isDigit CHR ''+''"
  by (simp add: isDigit_def charCode_def)

lemma isDigit_234: "isDigit CHR ''2''" "isDigit CHR ''3''" "isDigit CHR ''4''"
  by (simp_all add: isDigit_def charCode_def)

lemma filter_isDigit_drop:
  "filter isDigit (drop n (filter isDigit s)) = drop n (filter isDigit s)"
  by (rule filter_True) (auto dest: in_set_dropD)

lemma formatPhoneNumber_fixed:
  assumes "filter isDigit ds = ds"
  shows "formatPhoneNumber (''+234'' @ ds) = ''+234'' @ ds"
  using assms by (simp add: formatPhoneNumber_def startsWith_def isDigit_plus isDigit_234)

lemma formatPhoneNumber_shape:
  "\<exists>ds. filter isDigit ds = ds \<and> formatPhoneNumber phone = ''+234'' @ ds"
proof -
  let ?c = "filter isDigit phone"
  show ?thesis
  proof (cases "startsWith ?c ''0''")
    case True
    then have "formatPhoneNumber phone = ''+234'' @ drop 1 ?c"
      by (simp add: formatPhoneNumber_def)
    then show ?thesis using filter_isDigit_drop [of 1 phone] by blast
  next
    case zero: False
    show ?thesis
    proof (cases "startsWith ?c ''234''")
      case True
      then have c: "?c = ''234'' @ drop 3 ?c"
        by (metis append_take_drop_id length_Cons list.size(3) numeral_3_eq_3 startsWith_def)
      from True zero have "formatPhoneNumber phone = ''+'' @ ?c"
        by (simp add: formatPhoneNumber_def)
      then have "formatPhoneNumber phone = ''+234'' @ drop 3 ?c"
        using c by (metis append_Cons append_Nil)
      then show ?thesis using filter_isDigit_drop [of 3 phone] by blast
    next
      case False
      with zero have "formatPhoneNumber phone = ''+234'' @ ?c"
        by (simp add: formatPhoneNumber_def)
      moreover have "filter isDigit ?c = ?c" by simp
      ultimately show ?thesis by blast
    qed
  qed
qed

lemma formatPhoneNumber_twice:
  "formatPhoneNumber (formatPhoneNumber phone) = formatPhoneNumber phone"
proof -
  obtain ds where "filter isDigit ds = ds" and "formatPhoneNumber phone = ''+234'' @ ds"
    using formatPhoneNumber_shape by blast
  then show ?thesis using formatPhoneNumber_fixed [of ds] by simp
qed

section \<open>Facts about the labeled format\<close>

lemma labeledLine_returns: "\<exists>r. labeledLine parseDate result line = Inr r"
proof -
  let ?low = "toLowerCase line"
  have colon: "includes_str ?low '':'' \<Longrightarrow>
     \<exists>piece. at_index (split_str CHR '':'' line) 1 = Some piece"
    using at_index_split_colon lower_includes_colon by blast
  show ?thesis
  proof (cases "includes_str ?low '':''")
    case True
    then obtain piece where "at_index (split_str CHR '':'' line) 1 = Some piece"
      using colon by blast
    then show ?thesis by (simp add: labeledLine_def Let_def)
  next
    case False
    then show ?thesis by (simp add: labeledLine_def Let_def)
  qed
qed

lemma labeledLoop_returns: "\<exists>r. labeledLoop parseDate result lines = Inr r"
proof (induction lines arbitrary: result)
  case Nil
  show ?case by simp
next
  case (Cons line rest)
  obtain r where "labeledLine parseDate result line = Inr r"
    using labeledLine_returns by blast
  then show ?case using Cons.IH [of r] by simp
qed

lemma labeledLoop_append:
  "labeledLoop parseDate result (xs @ ys) =
     (case labeledLoop parseDate result xs of
        Inl e \<Rightarrow> Inl e
      | Inr r \<Rightarrow> labeledLoop parseDate r ys)"
  by (induction xs arbitrary: result) (auto split: sum.splits)

lemma at_index_one_colon:
  "oneColon line \<Longrightarrow>
     at_index (split_str CHR '':'' line) (Suc 0) = Some (afterFirstColon line)"
  by (simp add: oneColon_def split_str_one_sep at_index_def afterFirstColon_def)

lemma labeledLine_phone:
  assumes "phoneLabeled line" and "oneColon line"
  shows "labeledLine parseDate result line =
           Inr (result\<lparr>phoneNumber := Some (trim (afterFirstColon line))\<rparr>)"
  using assms by (simp add: labeledLine_def phoneLabeled_def Let_def at_index_one_colon)

lemma labeledLine_items:
  assumes "itemsLabeled line" and "oneColon line"
  shows "labeledLine parseDate result line =
           Inr (result\<lparr>items := Some (trim (afterFirstColon line))\<rparr>)"
  using assms by (auto simp: labeledLine_def itemsLabeled_def Let_def at_index_one_colon)

lemma labeledLine_keeps_phone:
  assumes "\<not> phoneLabeled line" and "labeledLine parseDate result line = Inr r"
  shows "phoneNumber r = phoneNumber result"
  using assms
  by (auto simp: labeledLine_def phoneLabeled_def Let_def split: if_splits option.splits)

lemma labeledLine_keeps_items:
  assumes "\<not> itemsLabeled line" and "labeledLine parseDate result line = Inr r"
  shows "items r = items result"
  using assms
  by (auto simp: labeledLine_def itemsLabeled_def Let_def split: if_splits option.splits)

lemma labeledLoop_keeps_phone:
  assumes "list_all (\<lambda>x. \<not> phoneLabeled x) lines"
    and "labeledLoop parseDate result lines = Inr r"
  shows "phoneNumber r = phoneNumber result"
  using assms
proof (induction lines arbitrary: result)
  case Nil
  then show ?case by simp
next
  case (Cons line rest)
  obtain r1 where r1: "labeledLine parseDate result line = Inr r1"
    using labeledLine_returns by blast
  with Cons have "phoneNumber r = phoneNumber r1" by simp
  moreover have "phoneNumber r1 = phoneNumber result"
    using Cons.prems(1) r1 labeledLine_keeps_phone [of line parseDate result r1] by simp
  ultimately show ?case by simp
qed

lemma labeledLoop_keeps_items:
  assumes "list_all (\<lambda>x. \<not> itemsLabeled x) lines"
    and "labeledLoop parseDate result lines = Inr r"
  shows "items r = items result"
  using assms
proof (induction lines arbitrary: result)
  case Nil
  then show ?case by simp
next
  case (Cons line rest)
  obtain r1 where r1: "labeledLine parseDate result line = Inr r1"
    using labeledLine_returns by blast
  with Cons have "items r = items r1" by simp
  moreover have "items r1 = items result"
    using Cons.prems(1) r1 labeledLine_keeps_items [of line parseDate result r1] by simp
  ultimately show ?case by simp
qed

lemma parseLabeledFormat_phone:
  assumes "phoneLabeled line" and "oneColon line"
    and "list_all (\<lambda>x. \<not> phoneLabeled x) after"
  shows "\<exists>r. parseLabeledFormat parseDate (before @ line # after) = Inr r \<and>
             phoneNumber r = Some (trim (afterFirstColon line))"
proof -
  obtain r0 where r0: "labeledLoop parseDate noFields before = Inr r0"
    using labeledLoop_returns by blast
  let ?r1 = "r0\<lparr>phoneNumber := Some (trim (afterFirstColon line))\<rparr>"
  have step: "labeledLine parseDate r0 line = Inr ?r1"
    using assms(1,2) by (rule labeledLine_phone)
  obtain r where r: "labeledLoop parseDate ?r1 after = Inr r"
    using labeledLoop_returns by blast
  then have "phoneNumber r = phoneNumber ?r1"
    using assms(3) labeledLoop_keeps_phone by blast
  moreover have "parseLabeledFormat parseDate (before @ line # after) = Inr r"
    using r0 step r by (simp add: parseLabeledFormat_def labeledLoop_append)
  ultimately show ?thesis by simp
qed

lemma parseLabeledFormat_items:
  assumes "itemsLabeled line" and "oneColon line"
    and "list_all (\<lambda>x. \<not> itemsLabeled x) after"
  shows "\<exists>r. parseLabeledFormat parseDate (before @ line # after) = Inr r \<and>
             items r = Some (trim (afterFirstColon line))"
proof -
  obtain r0 where r0: "labeledLoop parseDate noFields before = Inr r0"
    using labeledLoop_returns by blast
  let ?r1 = "r0\<lparr>items := Some (trim (afterFirstColon line))\<rparr>"
  have step: "labeledLine parseDate r0 line = Inr ?r1"
    using assms(1,2) by (rule labeledLine_items)
  obtain r where r: "labeledLoop parseDate ?r1 after = Inr r"
    using labeledLoop_returns by blast
  then have "items r = items ?r1"
    using assms(3) labeledLoop_keeps_items by blast
  moreover have "parseLabeledFormat parseDate (before @ line # after) = Inr r"
    using r0 step r by (simp add: parseLabeledFormat_def labeledLoop_append)
  ultimately show ?thesis by simp
qed

section \<open>Facts about the parser\<close>

lemma dropWhile_rev_dropWhile:
  "dropWhile P (rev (dropWhile P (rev (dropWhile P s)))) = rev (dropWhile P (rev (dropWhile P s)))"
proof -
  let ?t = "dropWhile P s"
  let ?b = "dropWhile P (rev ?t)"
  show ?thesis
  proof (cases "?b = []")
    case True
    then have "rev ?b = []" by simp
    then show ?thesis by (simp only: dropWhile.simps)
  next
    case False
    have "rev ?t = takeWhile P (rev ?t) @ ?b" by simp
    then have t: "?t = rev ?b @ rev (takeWhile P (rev ?t))"
      by (metis rev_append rev_rev_ident)
    from False have nb: "rev ?b \<noteq> []" by simp
    then have "?t \<noteq> []" using t by (metis append_is_Nil_conv)
    then have "\<not> P (hd ?t)" by (rule hd_dropWhile)
    moreover have "hd ?t = hd (rev ?b)" using t nb by (metis hd_append2)
    ultimately have "\<not> P (hd (rev ?b))" by simp
    then show ?thesis using nb by (cases "rev ?b") auto
  qed
qed

lemma trim_trim: "trim (trim s) = trim s"
proof -
  let ?u = "rev (dropWhile isSpace (rev (dropWhile isSpace s)))"
  have a: "dropWhile isSpace ?u = ?u" by (rule dropWhile_rev_dropWhile)
  have "dropWhile isSpace (rev ?u) = rev ?u" by simp
  then have "rev (dropWhile isSpace (rev (dropWhile isSpace ?u))) = ?u"
    using a by simp
  then show ?thesis by (simp add: trim_def)
qed

lemma messageLines_trimmed:
  assumes "line \<in> set (messageLines messageBody)"
  shows "line \<noteq> [] \<and> trim line = line"
proof -
  from assms obtain piece where "line = trim piece" and "line \<noteq> []"
    by (auto simp: messageLines_def)
  then show ?thesis by (simp add: trim_trim)
qed

lemma trimmedRequired_noFields: "trimmedRequired noFields"
  by (simp add: trimmedRequired_def trimmedOpt_def noFields_def)

lemma labeledLine_cases:
  assumes "labeledLine parseDate r line = Inr r'"
  shows "(\<exists>x. r' = r\<lparr>customerName := Some (trim x)\<rparr>) \<or>
         (\<exists>x. r' = r\<lparr>phoneNumber := Some (trim x)\<rparr>) \<or>
         (\<exists>x. r' = r\<lparr>address := Some (trim x)\<rparr>) \<or>
         (\<exists>x. r' = r\<lparr>items := Some (trim x)\<rparr>) \<or>
         (\<exists>d. r' = r\<lparr>deliveryDate := d\<rparr>) \<or> r' = r"
proof -
  let ?low = "toLowerCase line"
  let ?piece = "at_index (split_str CHR '':'' line) 1"
  consider (name) "startsWith ?low ''name:''"
    | (phone) "\<not> startsWith ?low ''name:''"
        "includes_str ?low ''phone'' \<and> includes_str ?low '':''"
    | (addr) "\<not> startsWith ?low ''name:''"
        "\<not> (includes_str ?low ''phone'' \<and> includes_str ?low '':'')"
        "startsWith ?low ''address:''"
    | (item) "\<not> startsWith ?low ''name:''"
        "\<not> (includes_str ?low ''phone'' \<and> includes_str ?low '':'')"
        "\<not> startsWith ?low ''address:''"
        "includes_str ?low ''item'' \<and> includes_str ?low '':''"
    | (other) "\<not> startsWith ?low ''name:''"
        "\<not> (includes_str ?low ''phone'' \<and> includes_str ?low '':'')"
        "\<not> startsWith ?low ''address:''"
        "\<not> (includes_str ?low ''item'' \<and> includes_str ?low '':'')"
    by blast
  then show ?thesis
  proof cases
    case name
    then have "labeledLine parseDate r line = Inr (r\<lparr>customerName := Some (trim (drop 5 line))\<rparr>)"
      by (auto simp: labeledLine_def Let_def)
    with assms show ?thesis by auto
  next
    case phone
    then have "labeledLine parseDate r line =
        (case ?piece of None \<Rightarrow> Inl TypeError
         | Some piece \<Rightarrow> Inr (r\<lparr>phoneNumber := Some (trim piece)\<rparr>))"
      by (auto simp: labeledLine_def Let_def)
    with assms show ?thesis by (cases ?piece) auto
  next
    case addr
    then have "labeledLine parseDate r line = Inr (r\<lparr>address := Some (trim (drop 8 line))\<rparr>)"
      by (auto simp: labeledLine_def Let_def)
    with assms show ?thesis by auto
  next
    case item
    then have "labeledLine parseDate r line =
        (case ?piece of None \<Rightarrow> Inl TypeError
         | Some piece \<Rightarrow> Inr (r\<lparr>items := Some (trim piece)\<rparr>))"
      by (auto simp: labeledLine_def Let_def)
    with assms show ?thesis by (cases ?piece) auto
  next
    case other
    then have "labeledLine parseDate r line =
        (if isDateString line then Inr (r\<lparr>deliveryDate := parseDate line\<rparr>) else Inr r)"
      by (auto simp: labeledLine_def Let_def)
    with assms show ?thesis by (cases "isDateString line") auto
  qed
qed

lemma labeledLine_trimmed:
  assumes "trimmedRequired r" and "labeledLine parseDate r line = Inr r'"
  shows "trimmedRequired r'"
  using labeledLine_cases [OF assms(2)] assms(1)
  by (auto simp: trimmedRequired_def trimmedOpt_def trim_trim)

lemma labeledLoop_trimmed:
  assumes "trimmedRequired r" and "labeledLoop parseDate r lines = Inr r'"
  shows "trimmedRequired r'"
  using assms
proof (induction lines arbitrary: r)
  case Nil
  then show ?case by simp
next
  case (Cons line rest)
  obtain r1 where r1: "labeledLine parseDate r line = Inr r1"
    using labeledLine_returns by blast
  then have "trimmedRequired r1" using Cons.prems(1) labeledLine_trimmed by blast
  moreover have "labeledLoop parseDate r1 rest = Inr r'" using Cons.prems(2) r1 by simp
  ultimately show ?case using Cons.IH by blast
qed

lemma parseLabeledFormat_trimmed:
  "parseLabeledFormat parseDate lines = Inr r \<Longrightarrow> trimmedRequired r"
  using labeledLoop_trimmed trimmedRequired_noFields by (auto simp: parseLabeledFormat_def)

lemma set_insertByMaxScore: "set (insertByMaxScore x ys) = insert x (set ys)"
  by (induction ys) auto

lemma set_foldl_insertByMaxScore:
  "set (foldl (\<lambda>sorted x. insertByMaxScore x sorted) acc xs) = set acc \<union> set xs"
  by (induction xs arbitrary: acc) (auto simp: set_insertByMaxScore)

lemma set_sortByMaxScore: "set (sortByMaxScore xs) = set xs"
  by (simp add: sortByMaxScore_def set_foldl_insertByMaxScore)

lemma scoredLine_confidenceOf: "scoredLine (confidenceOf entry) = snd entry"
  by (simp add: confidenceOf_def Let_def)

lemma chosenFrom_noFields: "chosenFrom ls noFields"
  by (simp add: chosenFrom_def fromLines_def noFields_def)

lemma assignBest_chosen:
  assumes "chosenFrom ls (fst state)" and "scoredLine item \<in> set ls"
  shows "chosenFrom ls (fst (assignBest state item))"
  using assms by (auto simp: assignBest_def Let_def chosenFrom_def fromLines_def)

lemma foldl_assignBest_chosen:
  assumes "chosenFrom ls (fst state)" and "\<forall>item \<in> set ranked. scoredLine item \<in> set ls"
  shows "chosenFrom ls (fst (foldl assignBest state ranked))"
  using assms
proof (induction ranked arbitrary: state)
  case Nil
  then show ?case by simp
next
  case (Cons item rest)
  have "chosenFrom ls (fst (assignBest state item))"
    using Cons.prems by (simp add: assignBest_chosen)
  then show ?case using Cons.IH Cons.prems(2) by simp
qed

lemma fillUnassigned_chosen:
  assumes "chosenFrom ls result" and "set unassignedLines \<subseteq> set ls"
  shows "chosenFrom ls (fillUnassigned result flags unassignedLines)"
proof -
  have nth: "\<And>k. k < length unassignedLines \<Longrightarrow> unassignedLines ! k \<in> set ls"
    using assms(2) nth_mem by blast
  show ?thesis
    using assms(1) nth
    by (auto simp: fillUnassigned_def Let_def chosenFrom_def fromLines_def)
qed

lemma assignRemainingFields_chosen: "chosenFrom lines (assignRemainingFields lines)"
proof -
  let ?sorted = "sortByMaxScore (map confidenceOf (zip [0 ..< length lines] lines))"
  have "\<forall>item \<in> set ?sorted. scoredLine item \<in> set lines"
    by (auto simp: set_sortByMaxScore scoredLine_confidenceOf dest: set_zip_rightD)
  then have "chosenFrom lines (fst (foldl assignBest
       (noFields, \<lparr>nameAssigned = False, addressAssigned = False, itemsAssigned = False\<rparr>)
       ?sorted))"
    using foldl_assignBest_chosen chosenFrom_noFields by simp
  then show ?thesis
    by (simp add: assignRemainingFields_def Let_def fillUnassigned_chosen)
qed

lemma dateLine_required: "sameRequired (fst (dateLine parseDate state entry)) (fst state)"
  by (simp add: dateLine_def sameRequired_def)

lemma dateLine_used:
  "snd (dateLine parseDate state entry) =
     (if isDateString (snd entry) \<and> fst entry \<notin> set (snd state)
      then snd state @ [fst entry] else snd state)"
  by (simp add: dateLine_def)

lemma foldl_dateLine:
  assumes "sameRequired (fst state) (fst state')" and "snd state = snd state'"
  shows "sameRequired (fst (foldl (dateLine parseDate) state entries))
                      (fst (foldl (dateLine parseDate') state' entries))
         \<and> snd (foldl (dateLine parseDate) state entries) =
           snd (foldl (dateLine parseDate') state' entries)"
  using assms
proof (induction entries arbitrary: state state')
  case Nil
  then show ?case by simp
next
  case (Cons entry rest)
  have a: "sameRequired (fst (dateLine parseDate state entry))
                        (fst (dateLine parseDate' state' entry))"
    using Cons.prems(1) dateLine_required [of parseDate state entry]
      dateLine_required [of parseDate' state' entry]
    by (simp add: sameRequired_def)
  have b: "snd (dateLine parseDate state entry) = snd (dateLine parseDate' state' entry)"
    using Cons.prems(2) by (simp add: dateLine_used)
  show ?case using Cons.IH [OF a b] by simp
qed

lemma foldl_dateLine_required:
  "sameRequired (fst (foldl (dateLine parseDate) state entries)) (fst state)"
proof (induction entries arbitrary: state)
  case Nil
  show ?case by (simp add: sameRequired_def)
next
  case (Cons entry rest)
  show ?case
    using Cons.IH [of "dateLine parseDate state entry"] dateLine_required [of parseDate state entry]
    by (simp add: sameRequired_def)
qed

lemma takeAssignments_same:
  "sameRequired r r' \<Longrightarrow> sameRequired (takeAssignments r a) (takeAssignments r' a)"
  by (simp add: takeAssignments_def sameRequired_def Let_def)

lemma takeAssignments_trimmed:
  assumes "trimmedRequired r" and "chosenFrom ls a" and "\<forall>l \<in> set ls. trim l = l"
  shows "trimmedRequired (takeAssignments r a)"
proof -
  have t: "\<And>v. fromLines ls v \<Longrightarrow> trimmedOpt v"
    using assms(3) by (auto simp: fromLines_def trimmedOpt_def split: option.splits)
  from assms(2) have "trimmedOpt (customerName a)" "trimmedOpt (address a)" "trimmedOpt (items a)"
    using t by (simp_all add: chosenFrom_def)
  then show ?thesis using assms(1)
    by (simp add: takeAssignments_def trimmedRequired_def Let_def)
qed

lemma at_index_fromLines: "fromLines ls (at_index ls k)"
  by (simp add: fromLines_def at_index_def)

lemma parseUnlabeledFormat_pieces:
  "parseUnlabeledFormat parseDate lines =
     (let result = fst (afterDatesOf parseDate lines);
          remainingLines = remainingOf parseDate lines
      in if length remainingLines \<ge> 3 then
           takeAssignments result (assignRemainingFields remainingLines)
         else if length remainingLines \<ge> 2 then
           (if length remainingLines = 3 then
              result\<lparr>customerName := at_index remainingLines 0,
                      address := at_index remainingLines 1,
                      items := at_index remainingLines 2\<rparr>
            else if length remainingLines = 2 then
              takeAssignments result (assignRemainingFields remainingLines)
            else result)
         else result)"
  unfolding parseUnlabeledFormat_def afterPhoneOf_def afterDatesOf_def remainingOf_def Let_def
  by (rule refl)

lemma afterPhoneOf_trimmed: "trimmedRequired (fst (afterPhoneOf lines))"
  by (simp add: afterPhoneOf_def trimmedRequired_def trimmedOpt_def noFields_def trim_trim
           split: list.splits)

lemma afterDatesOf_trimmed: "trimmedRequired (fst (afterDatesOf parseDate lines))"
  using foldl_dateLine_required [of parseDate "afterPhoneOf lines" "zip [0 ..< length lines] lines"]
    afterPhoneOf_trimmed [of lines]
  by (simp add: afterDatesOf_def sameRequired_def trimmedRequired_def)

lemma afterDatesOf_same:
  "sameRequired (fst (afterDatesOf parseDate lines)) (fst (afterDatesOf parseDate' lines))
   \<and> snd (afterDatesOf parseDate lines) = snd (afterDatesOf parseDate' lines)"
  unfolding afterDatesOf_def
  by (rule foldl_dateLine) (simp_all add: sameRequired_def)

lemma remainingOf_same: "remainingOf parseDate lines = remainingOf parseDate' lines"
  using afterDatesOf_same [of parseDate lines parseDate'] by (simp add: remainingOf_def)

lemma remainingOf_subset: "set (remainingOf parseDate lines) \<subseteq> set lines"
  by (auto simp: remainingOf_def dest: set_zip_rightD)

lemma parseUnlabeledFormat_same:
  "sameRequired (parseUnlabeledFormat parseDate lines) (parseUnlabeledFormat parseDate' lines)"
proof -
  have r: "remainingOf parseDate lines = remainingOf parseDate' lines"
    by (rule remainingOf_same)
  have s: "sameRequired (fst (afterDatesOf parseDate lines)) (fst (afterDatesOf parseDate' lines))"
    using afterDatesOf_same by blast
  then have t: "\<And>a. sameRequired (takeAssignments (fst (afterDatesOf parseDate lines)) a)
                  (takeAssignments (fst (afterDatesOf parseDate' lines)) a)"
    by (rule takeAssignments_same)
  show ?thesis
    unfolding parseUnlabeledFormat_pieces Let_def r
    using s t by (simp add: sameRequired_def)
qed

lemma parseUnlabeledFormat_trimmed:
  assumes "\<forall>l \<in> set lines. trim l = l"
  shows "trimmedRequired (parseUnlabeledFormat parseDate lines)"
proof -
  let ?rem = "remainingOf parseDate lines"
  let ?res = "fst (afterDatesOf parseDate lines)"
  have rem: "\<forall>l \<in> set ?rem. trim l = l"
    using assms remainingOf_subset by blast
  have res: "trimmedRequired ?res" by (rule afterDatesOf_trimmed)
  have ta: "trimmedRequired (takeAssignments ?res (assignRemainingFields ?rem))"
    using res assignRemainingFields_chosen rem by (rule takeAssignments_trimmed)
  have ix: "\<And>k. trimmedOpt (at_index ?rem k)"
    using rem by (auto simp: at_index_def trimmedOpt_def)
  have pos: "trimmedRequired (?res\<lparr>customerName := at_index ?rem 0,
                address := at_index ?rem 1, items := at_index ?rem 2\<rparr>)"
    using res ix by (simp add: trimmedRequired_def)
  show ?thesis
    unfolding parseUnlabeledFormat_pieces Let_def
    using res ta pos by simp
qed

lemma labeledLine_branches:
  fixes line parseDate r
  defines "low \<equiv> toLowerCase line"
  defines "piece \<equiv> at_index (split_str CHR '':'' line) 1"
  shows "startsWith low ''name:'' \<Longrightarrow>
           labeledLine parseDate r line = Inr (r\<lparr>customerName := Some (trim (drop 5 line))\<rparr>)"
    and "\<not> startsWith low ''name:'' \<Longrightarrow>
         includes_str low ''phone'' \<and> includes_str low '':'' \<Longrightarrow>
           labeledLine parseDate r line =
             (case piece of None \<Rightarrow> Inl TypeError
              | Some p \<Rightarrow> Inr (r\<lparr>phoneNumber := Some (trim p)\<rparr>))"
    and "\<not> startsWith low ''name:'' \<Longrightarrow>
         \<not> (includes_str low ''phone'' \<and> includes_str low '':'') \<Longrightarrow>
         startsWith low ''address:'' \<Longrightarrow>
           labeledLine parseDate r line = Inr (r\<lparr>address := Some (trim (drop 8 line))\<rparr>)"
    and "\<not> startsWith low ''name:'' \<Longrightarrow>
         \<not> (includes_str low ''phone'' \<and> includes_str low '':'') \<Longrightarrow>
         \<not> startsWith low ''address:'' \<Longrightarrow>
         includes_str low ''item'' \<and> includes_str low '':'' \<Longrightarrow>
           labeledLine parseDate r line =
             (case piece of None \<Rightarrow> Inl TypeError
              | Some p \<Rightarrow> Inr (r\<lparr>items := Some (trim p)\<rparr>))"
    and "\<not> startsWith low ''name:'' \<Longrightarrow>
         \<not> (includes_str low ''phone'' \<and> includes_str low '':'') \<Longrightarrow>
         \<not> startsWith low ''address:'' \<Longrightarrow>
         \<not> (includes_str low ''item'' \<and> includes_str low '':'') \<Longrightarrow>
           labeledLine parseDate r line =
             (if isDateString line then Inr (r\<lparr>deliveryDate := parseDate line\<rparr>) else Inr r)"
  unfolding low_def piece_def by (auto simp: labeledLine_def Let_def)

lemma labeledLine_same:
  assumes "sameRequired r r'"
    and "labeledLine parseDate r line = Inr a" and "labeledLine parseDate' r' line = Inr b"
  shows "sameRequired a b"
proof -
  let ?low = "toLowerCase line"
  let ?piece = "at_index (split_str CHR '':'' line) 1"
  consider (name) "startsWith ?low ''name:''"
    | (phone) "\<not> startsWith ?low ''name:''"
        "includes_str ?low ''phone'' \<and> includes_str ?low '':''"
    | (addr) "\<not> startsWith ?low ''name:''"
        "\<not> (includes_str ?low ''phone'' \<and> includes_str ?low '':'')"
        "startsWith ?low ''address:''"
    | (item) "\<not> startsWith ?low ''name:''"
        "\<not> (includes_str ?low ''phone'' \<and> includes_str ?low '':'')"
        "\<not> startsWith ?low ''address:''"
        "includes_str ?low ''item'' \<and> includes_str ?low '':''"
    | (other) "\<not> startsWith ?low ''name:''"
        "\<not> (includes_str ?low ''phone'' \<and> includes_str ?low '':'')"
        "\<not> startsWith ?low ''address:''"
        "\<not> (includes_str ?low ''item'' \<and> includes_str ?low '':'')"
    by blast
  then show ?thesis
  proof cases
    case name
    from labeledLine_branches(1) [OF name, of parseDate r]
         labeledLine_branches(1) [OF name, of parseDate' r'] assms
    show ?thesis by (auto simp: sameRequired_def)
  next
    case phone
    from labeledLine_branches(2) [OF phone, of parseDate r]
         labeledLine_branches(2) [OF phone, of parseDate' r'] assms
    show ?thesis by (cases ?piece) (auto simp: sameRequired_def)
  next
    case addr
    from labeledLine_branches(3) [OF addr, of parseDate r]
         labeledLine_branches(3) [OF addr, of parseDate' r'] assms
    show ?thesis by (auto simp: sameRequired_def)
  next
    case item
    from labeledLine_branches(4) [OF item, of parseDate r]
         labeledLine_branches(4) [OF item, of parseDate' r'] assms
    show ?thesis by (cases ?piece) (auto simp: sameRequired_def)
  next
    case other
    from labeledLine_branches(5) [OF other, of parseDate r]
         labeledLine_branches(5) [OF other, of parseDate' r'] assms
    show ?thesis by (cases "isDateString line") (auto simp: sameRequired_def)
  qed
qed

lemma labeledLoop_same:
  assumes "sameRequired r r'"
    and "labeledLoop parseDate r lines = Inr a" and "labeledLoop parseDate' r' lines = Inr b"
  shows "sameRequired a b"
  using assms
proof (induction lines arbitrary: r r')
  case Nil
  then show ?case by simp
next
  case (Cons line rest)
  obtain r1 where r1: "labeledLine parseDate r line = Inr r1"
    using labeledLine_returns by blast
  obtain r1' where r1': "labeledLine parseDate' r' line = Inr r1'"
    using labeledLine_returns by blast
  have s: "sameRequired r1 r1'" using Cons.prems(1) r1 r1' by (rule labeledLine_same)
  have "labeledLoop parseDate r1 rest = Inr a" using Cons.prems(2) r1 by simp
  moreover have "labeledLoop parseDate' r1' rest = Inr b" using Cons.prems(3) r1' by simp
  ultimately show ?case using Cons.IH [OF s] by blast
qed

lemma parseLabeledFormat_returns: "\<exists>r. parseLabeledFormat parseDate lines = Inr r"
  by (simp add: parseLabeledFormat_def labeledLoop_returns)

lemma parseLabeledFormat_same:
  assumes "parseLabeledFormat parseDate lines = Inr a"
    and "parseLabeledFormat parseDate' lines = Inr b"
  shows "sameRequired a b"
proof -
  have "sameRequired noFields noFields" by (simp add: sameRequired_def)
  then show ?thesis using assms unfolding parseLabeledFormat_def by (rule labeledLoop_same)
qed

lemma settled_keepTruthy: "settled (keepTruthy v)"
  by (cases v) (simp_all add: keepTruthy_def settled_def)

lemma settled_fillMissing: "settled current \<Longrightarrow> settled (fillMissing current candidate)"
  by (cases candidate) (simp_all add: fillMissing_def settled_def)

lemma trimmedOpt_keepTruthy: "trimmedOpt v \<Longrightarrow> trimmedOpt (keepTruthy v)"
  by (simp add: keepTruthy_def trimmedOpt_def)

lemma trimmedOpt_fillMissing:
  "trimmedOpt current \<Longrightarrow> trimmedOpt candidate \<Longrightarrow> trimmedOpt (fillMissing current candidate)"
  by (simp add: fillMissing_def)

lemma mergeFields_returns: "\<exists>m. mergeFields parseDate lines = Inr m"
proof -
  obtain l where "parseLabeledFormat parseDate lines = Inr l"
    using parseLabeledFormat_returns by blast
  then show ?thesis by (simp add: mergeFields_def Let_def)
qed

lemma mergeFields_settled:
  assumes "mergeFields parseDate lines = Inr m"
  shows "settled (customerName m) \<and> settled (phoneNumber m) \<and> settled (address m) \<and>
         settled (items m)"
proof -
  obtain l where l: "parseLabeledFormat parseDate lines = Inr l"
    using parseLabeledFormat_returns by blast
  show ?thesis using assms l
    by (auto simp: mergeFields_def Let_def settled_keepTruthy settled_fillMissing
             split: if_splits)
qed

lemma mergeFields_trimmed:
  assumes "mergeFields parseDate lines = Inr m" and "\<forall>l \<in> set lines. trim l = l"
  shows "trimmedRequired m"
proof -
  obtain l where l: "parseLabeledFormat parseDate lines = Inr l"
    using parseLabeledFormat_returns by blast
  then have tl: "trimmedRequired l" by (rule parseLabeledFormat_trimmed)
  have tu: "trimmedRequired (parseUnlabeledFormat parseDate lines)"
    using assms(2) by (rule parseUnlabeledFormat_trimmed)
  show ?thesis using assms(1) l tl tu
    by (auto simp: mergeFields_def Let_def trimmedRequired_def trimmedOpt_keepTruthy
                   trimmedOpt_fillMissing split: if_splits)
qed

lemma mergeFields_same:
  assumes "mergeFields parseDate lines = Inr m" and "mergeFields parseDate' lines = Inr m'"
  shows "sameRequired m m'"
proof -
  obtain l where l: "parseLabeledFormat parseDate lines = Inr l"
    using parseLabeledFormat_returns by blast
  obtain l' where l': "parseLabeledFormat parseDate' lines = Inr l'"
    using parseLabeledFormat_returns by blast
  have sl: "sameRequired l l'" using l l' by (rule parseLabeledFormat_same)
  have su: "sameRequired (parseUnlabeledFormat parseDate lines)
                         (parseUnlabeledFormat parseDate' lines)"
    by (rule parseUnlabeledFormat_same)
  show ?thesis using assms l l' sl su
    by (auto simp: mergeFields_def Let_def sameRequired_def split: if_splits)
qed

lemma parseOrder_try_returns: "\<exists>r. parseOrder_try parseDate messageBody senderName = Inr r"
proof -
  obtain m where "mergeFields parseDate (messageLines messageBody) = Inr m"
    using mergeFields_returns by blast
  then show ?thesis
    by (auto simp: parseOrder_try_def Let_def split: option.splits)
qed

lemma parseOrder_None_iff:
  "parseOrder parseDate messageBody senderName = None \<longleftrightarrow>
     length (messageLines messageBody) < 3 \<or>
     (\<exists>m. mergeFields parseDate (messageLines messageBody) = Inr m \<and>
          (customerName m = None \<or> phoneNumber m = None \<or> address m = None \<or>
           items m = None))"
proof -
  obtain m where m: "mergeFields parseDate (messageLines messageBody) = Inr m"
    using mergeFields_returns by blast
  have s: "settled (customerName m)" "settled (phoneNumber m)" "settled (address m)"
    "settled (items m)"
    using mergeFields_settled [OF m] by simp_all
  show ?thesis
    using m s
    by (auto simp: parseOrder_def parseOrder_try_def Let_def settled_def
             split: option.splits)
qed

lemma parseOrder_date_independent:
  "(parseOrder parseDate messageBody senderName = None) =
   (parseOrder parseDate' messageBody senderName = None)"
proof -
  obtain m where m: "mergeFields parseDate (messageLines messageBody) = Inr m"
    using mergeFields_returns by blast
  obtain m' where m': "mergeFields parseDate' (messageLines messageBody) = Inr m'"
    using mergeFields_returns by blast
  have "sameRequired m m'" using m m' by (rule mergeFields_same)
  then show ?thesis using m m'
    by (simp add: parseOrder_None_iff sameRequired_def)
qed

lemma parseOrder_Some_trimmed:
  assumes "parseOrder parseDate messageBody senderName = Some d"
  shows "od_customerName d \<noteq> [] \<and> trim (od_customerName d) = od_customerName d \<and>
         od_phoneNumber d \<noteq> [] \<and> trim (od_phoneNumber d) = od_phoneNumber d \<and>
         od_address d \<noteq> [] \<and> trim (od_address d) = od_address d \<and>
         od_items d \<noteq> [] \<and> trim (od_items d) = od_items d"
proof -
  obtain m where m: "mergeFields parseDate (messageLines messageBody) = Inr m"
    using mergeFields_returns by blast
  have "\<forall>l \<in> set (messageLines messageBody). trim l = l"
    using messageLines_trimmed by blast
  with m have t: "trimmedRequired m" by (rule mergeFields_trimmed)
  from assms m obtain n p a i where f: "customerName m = Some n" "phoneNumber m = Some p"
      "address m = Some a" "items m = Some i" "n \<noteq> []" "p \<noteq> []" "a \<noteq> []" "i \<noteq> []"
    and d: "d = \<lparr>od_customerName = trim n, od_phoneNumber = trim p, od_address = trim a,
                 od_items = trim i, od_deliveryDate = deliveryDate m,
                 od_addedBy = senderName\<rparr>"
    by (auto simp: parseOrder_def parseOrder_try_def Let_def
             split: option.splits if_splits)
  from t f have "trim n = n" "trim p = p" "trim a = a" "trim i = i"
    by (simp_all add: trimmedRequired_def trimmedOpt_def)
  with f d show ?thesis by simp
qed

lemma parseUnlabeledFormat_three_remaining:
  assumes "length (remainingOf parseDate lines) = 3"
  shows "parseUnlabeledFormat parseDate lines =
           takeAssignments (fst (afterDatesOf parseDate lines))
             (assignRemainingFields (remainingOf parseDate lines))"
  using assms by (simp add: parseUnlabeledFormat_pieces)

section \<open>Facts about the store and the lifecycle\<close>

lemma addOrderHistory_eq:
  "addOrderHistory db orderId newStatus changedBy note =
     (if history_failing db then db
      else db\<lparr>order_history := order_history db @
             [\<lparr>h_order_id = orderId, h_status = newStatus, changed_by = changedBy,
               h_timestamp = clock db, h_notes = note\<rparr>]\<rparr>)"
  by (simp add: addOrderHistory_def insertHistory_def)

lemma addOrderHistory_orders [simp]:
  "orders (addOrderHistory db orderId newStatus changedBy note) = orders db"
  "orders_failing (addOrderHistory db orderId newStatus changedBy note) = orders_failing db"
  "history_failing (addOrderHistory db orderId newStatus changedBy note) = history_failing db"
  by (simp_all add: addOrderHistory_eq)

lemma getOrderById_addOrderHistory [simp]:
  "getOrderById (addOrderHistory db orderId newStatus changedBy note) oid = getOrderById db oid"
  by (simp add: getOrderById_def)

lemma find_append_fresh:
  "\<not> list_ex P xs \<Longrightarrow> find P (xs @ [y]) = (if P y then Some y else None)"
  by (induction xs) auto

lemma find_filter: "find P xs = Some x \<Longrightarrow> \<exists>rest. filter P xs = x # rest"
  by (induction xs) (auto split: if_splits)

lemma find_Some_holds: "find P xs = Some x \<Longrightarrow> P x"
  by (induction xs) (auto split: if_splits)

lemma find_map_change:
  assumes "\<And>x. P (g x) = P x"
  shows "find P (map (\<lambda>x. if P x then g x else x) xs) = map_option g (find P xs)"
  using assms by (induction xs) auto

lemma createOrder_Inr:
  assumes "createOrder db orderId orderData = Inr (row, db')"
  shows "\<not> orders_failing db" and "\<not> list_ex (\<lambda>r. order_id r = orderId) (orders db)"
    and "row = \<lparr>order_id = orderId, customer_name = od_customerName orderData,
                 phone_number = formatPhoneNumber (od_phoneNumber orderData),
                 row_address = od_address orderData, row_items = od_items orderData,
                 delivery_date = od_deliveryDate orderData, status = ''pending'',
                 added_by = od_addedBy orderData, delivery_person = None,
                 created_at = clock db, delivered_at = None, cancelled_at = None\<rparr>"
    and "db' = addOrderHistory (db\<lparr>orders := orders db @ [row]\<rparr>) orderId ''pending''
                 (od_addedBy orderData) ''Order created''"
  using assms
  by (auto simp: createOrder_def insertOrder_def Let_def split: if_splits)

lemma historyOf_fresh:
  assumes "historyConsistent db" and "\<not> list_ex (\<lambda>r. order_id r = orderId) (orders db)"
  shows "historyOf db orderId = []"
proof -
  have "\<And>h. h \<in> set (order_history db) \<Longrightarrow> h_order_id h \<noteq> orderId"
  proof
    fix h assume h: "h \<in> set (order_history db)" and e: "h_order_id h = orderId"
    from assms(1) h have "list_ex (\<lambda>r. order_id r = h_order_id h) (orders db)"
      by (simp add: historyConsistent_def list_all_iff)
    with e assms(2) show False by simp
  qed
  then show ?thesis by (simp add: historyOf_def filter_empty_conv)
qed

lemma createOrder_lifecycle:
  assumes "\<not> history_failing db" and "historyConsistent db"
    and "createOrder db orderId orderData = Inr (row, db')"
  shows "status row = ''pending''"
    and "getOrderById db' orderId = Inr (Some row)"
    and "historyOf db' orderId =
           [\<lparr>h_order_id = orderId, h_status = ''pending'', changed_by = od_addedBy orderData,
             h_timestamp = clock db, h_notes = ''Order created''\<rparr>]"
proof -
  note c = createOrder_Inr [OF assms(3)]
  show "status row = ''pending''" using c(3) by simp
  have id: "order_id row = orderId" using c(3) by simp
  show "getOrderById db' orderId = Inr (Some row)"
    using c(1,2) id by (simp add: c(4) getOrderById_def find_append_fresh)
  have "historyOf db orderId = []" using assms(2) c(2) by (rule historyOf_fresh)
  then show "historyOf db' orderId =
           [\<lparr>h_order_id = orderId, h_status = ''pending'', changed_by = od_addedBy orderData,
             h_timestamp = clock db, h_notes = ''Order created''\<rparr>]"
    using assms(1) by (simp add: c(4) addOrderHistory_eq historyOf_def)
qed

lemma markOrderAsDelivered_cancelled:
  assumes "getOrderById db orderId = Inr (Some order)" and "status order = ''cancelled''"
  shows "markOrderAsDelivered db orderId person = (db, CannotDeliverCancelled orderId)"
  using assms by (simp add: markOrderAsDelivered_def deliverAfterLookup_def)

lemma markOrderAsDelivered_delivered:
  assumes "getOrderById db orderId = Inr (Some order)" and "status order = ''delivered''"
  shows "markOrderAsDelivered db orderId person = (db, AlreadyDelivered orderId)"
  using assms by (simp add: markOrderAsDelivered_def deliverAfterLookup_def)

lemma markOrderAsDelivered_pending:
  assumes "getOrderById db orderId = Inr (Some order)" and "status order = ''pending''"
  shows "\<exists>db1 delivered.
           markOrderAsDelivered db orderId person = (db1, MarkedDelivered orderId person) \<and>
           getOrderById db1 orderId = Inr (Some delivered) \<and>
           delivered = order\<lparr>status := ''delivered'', delivery_person := Some person,
                               delivered_at := Some (clock db)\<rparr> \<and>
           order_history db1 =
             (if history_failing db then order_history db
              else order_history db @
                   [\<lparr>h_order_id = orderId, h_status = ''delivered'', changed_by = person,
                     h_timestamp = clock db, h_notes = ''Status changed to delivered''\<rparr>])"
proof -
  let ?P = "\<lambda>r. order_id r = orderId"
  let ?change = "\<lambda>r. r\<lparr>status := ''delivered'', delivery_person := Some person,
                        delivered_at := Some (clock db)\<rparr>"
  define db1 where "db1 = addOrderHistory
                   (db\<lparr>orders := map (\<lambda>r. if ?P r then ?change r else r) (orders db)\<rparr>)
                   orderId ''delivered'' person ''Status changed to delivered''"
  from assms(1) have nf: "\<not> orders_failing db" and f: "find ?P (orders db) = Some order"
    by (auto simp: getOrderById_def split: if_splits)
  from f obtain rest where flt: "filter ?P (orders db) = order # rest"
    using find_filter by fastforce
  have upd: "updateOrderStatus db orderId ''delivered'' person (Some person) =
               Inr (?change order, db1)"
    using nf flt
    by (simp add: updateOrderStatus_def updateOrders_def db1_def)
  have a: "markOrderAsDelivered db orderId person = (db1, MarkedDelivered orderId person)"
    using assms(1,2) upd by (simp add: markOrderAsDelivered_def deliverAfterLookup_def)
  have "find ?P (map (\<lambda>r. if ?P r then ?change r else r) (orders db)) =
          map_option ?change (find ?P (orders db))"
    by (rule find_map_change) simp
  then have b: "getOrderById db1 orderId = Inr (Some (?change order))"
    using nf f by (simp add: db1_def getOrderById_def)
  have c: "order_history db1 =
             (if history_failing db then order_history db
              else order_history db @
                   [\<lparr>h_order_id = orderId, h_status = ''delivered'', changed_by = person,
                     h_timestamp = clock db, h_notes = ''Status changed to delivered''\<rparr>])"
    by (simp add: db1_def addOrderHistory_eq)
  from a b c show ?thesis by blast
qed

text \<open>
  That every history entry belongs to an order is an invariant: it holds of the empty store
  and the two writing operations keep it. A failure of the orders table, unlike one of the
  history table, reaches the caller.
\<close>

lemma historyConsistent_emptyStore: "historyConsistent emptyStore"
  by (simp add: emptyStore_def historyConsistent_def)

lemma historyConsistent_addOrderHistory:
  assumes "historyConsistent db" and "list_ex (\<lambda>r. order_id r = orderId) (orders db)"
  shows "historyConsistent (addOrderHistory db orderId newStatus changedBy note)"
  using assms by (simp add: addOrderHistory_eq historyConsistent_def)

lemma historyConsistent_more_orders:
  assumes "historyConsistent db" and "\<And>oid. list_ex (\<lambda>r. order_id r = oid) (orders db)
             \<Longrightarrow> list_ex (\<lambda>r. order_id r = oid) rows"
  shows "historyConsistent (db\<lparr>orders := rows\<rparr>)"
  using assms by (simp add: historyConsistent_def list_all_iff)

lemma createOrder_keeps_historyConsistent:
  assumes "historyConsistent db" and "createOrder db orderId orderData = Inr (row, db')"
  shows "historyConsistent db'"
proof -
  note c = createOrder_Inr [OF assms(2)]
  have "order_id row = orderId" using c(3) by simp
  then have here: "list_ex (\<lambda>r. order_id r = orderId) (orders db @ [row])" by simp
  have "historyConsistent (db\<lparr>orders := orders db @ [row]\<rparr>)"
    using assms(1) by (rule historyConsistent_more_orders) simp
  then show ?thesis
    unfolding c(4) using here by (intro historyConsistent_addOrderHistory) simp_all
qed

lemma updateOrderStatus_Inr:
  assumes "updateOrderStatus db orderId newStatus changedBy deliveryPerson = Inr (row, db')"
  shows "\<exists>change :: order_row \<Rightarrow> order_row.
           (\<forall>r. order_id (change r) = order_id r) \<and> \<not> orders_failing db \<and>
           filter (\<lambda>r. order_id r = orderId) (orders db) \<noteq> [] \<and>
           db' = addOrderHistory
                   (db\<lparr>orders := map (\<lambda>r. if order_id r = orderId then change r else r)
                                       (orders db)\<rparr>)
                   orderId newStatus changedBy (''Status changed to '' @ newStatus)"
proof -
  define change :: "order_row \<Rightarrow> order_row" where "change =
            (if newStatus = ''delivered'' then
               (\<lambda>r. r\<lparr>status := newStatus, delivery_person := deliveryPerson,
                       delivered_at := Some (clock db)\<rparr>)
             else if newStatus = ''cancelled'' then
               (\<lambda>r. r\<lparr>status := newStatus, cancelled_at := Some (clock db)\<rparr>)
             else
               (\<lambda>r. r\<lparr>status := newStatus, delivery_person := deliveryPerson\<rparr>))"
  have keep: "\<forall>r. order_id (change r) = order_id r" by (simp add: change_def)
  have u: "updateOrderStatus db orderId newStatus changedBy deliveryPerson =
     (case updateOrders db orderId change of
           Inl e \<Rightarrow> Inl e
         | Inr updated \<Rightarrow>
             (case fst updated of
                [] \<Rightarrow> Inl (OrderNotFound orderId)
              | row # others \<Rightarrow>
                  Inr (row, addOrderHistory (snd updated) orderId newStatus changedBy
                              (''Status changed to '' @ newStatus))))"
    unfolding updateOrderStatus_def Let_def change_def by (rule refl)
  from assms have nf: "\<not> orders_failing db"
    unfolding u by (auto simp: updateOrders_def split: if_splits)
  from assms nf have "filter (\<lambda>r. order_id r = orderId) (orders db) \<noteq> [] \<and>
      db' = addOrderHistory
              (db\<lparr>orders := map (\<lambda>r. if order_id r = orderId then change r else r)
                                  (orders db)\<rparr>)
              orderId newStatus changedBy (''Status changed to '' @ newStatus)"
    unfolding u by (auto simp: updateOrders_def split: list.splits)
  with keep nf show ?thesis by blast
qed

lemma updateOrderStatus_keeps_historyConsistent:
  assumes "historyConsistent db"
    and "updateOrderStatus db orderId newStatus changedBy deliveryPerson = Inr (row, db')"
  shows "historyConsistent db'"
proof -
  from updateOrderStatus_Inr [OF assms(2)] obtain change :: "order_row \<Rightarrow> order_row" where
    keep: "\<forall>r. order_id (change r) = order_id r"
    and some: "filter (\<lambda>r. order_id r = orderId) (orders db) \<noteq> []"
    and db': "db' = addOrderHistory
                   (db\<lparr>orders := map (\<lambda>r. if order_id r = orderId then change r else r)
                                       (orders db)\<rparr>)
                   orderId newStatus changedBy (''Status changed to '' @ newStatus)"
    by blast
  let ?rows = "map (\<lambda>r. if order_id r = orderId then change r else r) (orders db)"
  have ids: "\<And>oid. list_ex (\<lambda>r. order_id r = oid) (orders db)
               \<Longrightarrow> list_ex (\<lambda>r. order_id r = oid) ?rows"
    using keep by (auto simp: list_ex_iff)
  have c: "historyConsistent (db\<lparr>orders := ?rows\<rparr>)"
    using assms(1) ids by (rule historyConsistent_more_orders)
  from some have "list_ex (\<lambda>r. order_id r = orderId) (orders db)"
    by (auto simp: list_ex_iff filter_empty_conv)
  then have "list_ex (\<lambda>r. order_id r = orderId) ?rows" by (rule ids)
  then show ?thesis unfolding db' using c
    by (intro historyConsistent_addOrderHistory) simp_all
qed

lemma orders_failure_propagates:
  assumes "orders_failing db"
  shows "createOrder db orderId orderData = Inl QueryFailed"
    and "updateOrderStatus db orderId newStatus changedBy deliveryPerson = Inl QueryFailed"
    and "getOrderById db orderId = Inl QueryFailed"
    and "markOrderAsDelivered db orderId person = (db, ErrorUpdating orderId)"
    and "cancelOrder db orderId person = (db, ErrorCancelling orderId)"
  using assms
  by (simp_all add: createOrder_def insertOrder_def updateOrderStatus_def updateOrders_def
        getOrderById_def markOrderAsDelivered_def deliverAfterLookup_def cancelOrder_def
        cancelAfterLookup_def Let_def)

lemma createOrder_duplicate_id:
  assumes "\<not> orders_failing db" and "list_ex (\<lambda>r. order_id r = orderId) (orders db)"
  shows "createOrder db orderId orderData = Inl UniqueViolation"
  using assms by (simp add: createOrder_def insertOrder_def)

text \<open>A handler that is given both its turns in a row is the uninterrupted function.\<close>

lemma step_twice_deliver:
  "step (fst (step db (Started (Deliver orderId person))))
        (snd (step db (Started (Deliver orderId person)))) =
     (fst (markOrderAsDelivered db orderId person),
      Finished (snd (markOrderAsDelivered db orderId person)))"
  by (simp add: markOrderAsDelivered_def Let_def)

lemma step_twice_cancel:
  "step (fst (step db (Started (Cancel orderId person))))
        (snd (step db (Started (Cancel orderId person)))) =
     (fst (cancelOrder db orderId person), Finished (snd (cancelOrder db orderId person)))"
  by (simp add: cancelOrder_def Let_def)

text \<open>The patterns on a few strings.\<close>

lemma pattern_examples:
  "isDateString ''15/03/2024''" "isDateString ''2024-03-15''" "isDateString ''Tomorrow''"
  "isDateString ''next FRIDAY''" "\<not> isDateString ''Amaka Obi''" "\<not> isDateString ''15/03/24''"
  "calculatePatternScore ''Amaka Obi'' namePatterns = 2"
  "calculatePatternScore ''Amaka'' namePatterns = 1"
  "calculatePatternScore ''No. 5 Rd'' addressPatterns = 2"
  "calculatePatternScore ''2 plates'' itemPatterns = 2"
  "calculatePatternScore ''2X rice'' itemPatterns = 1"
  "isPhoneNumber ''0801 234 5678''" "\<not> isPhoneNumber ''15/03/2024''"
  "extractOrderIdFromMessage ''see Order #ORD20240115042, thanks'' = Some ''ORD20240115042''"
  "extractOrderIdFromMessage ''Order # then Order #A1'' = Some ''A1''"
  by code_simp+

section \<open>Phone normalization: the claims\<close>

text \<open>
  Claim C4, as stated: for some phone string, normalizing twice differs from normalizing
  once. The code refutes it: no such string exists.
\<close>

theorem C4_no_phone_distinguishes_twice_from_once:
  "\<not> (\<exists>phone. formatPhoneNumber (formatPhoneNumber phone) \<noteq> formatPhoneNumber phone)"
  by (simp add: formatPhoneNumber_twice)

text \<open>
  Claim C4, amended: phone normalization is idempotent. Every output is a plus sign, the
  country code 234 and digits only, and normalizing such a string returns it unchanged; this
  holds in particular for a bare national number without a leading 0 such as 8012345678.
\<close>

theorem C4_formatPhoneNumber_idempotent:
  "formatPhoneNumber (formatPhoneNumber phone) = formatPhoneNumber phone
   \<and> formatPhoneNumber (formatPhoneNumber ''8012345678'') = ''+2348012345678''
   \<and> formatPhoneNumber ''8012345678'' = ''+2348012345678''"
proof -
  have "formatPhoneNumber ''8012345678'' = ''+2348012345678''"
    by (simp add: formatPhoneNumber_def startsWith_def isDigit_def charCode_def)
  then show ?thesis using formatPhoneNumber_twice [of "''8012345678''"]
    by (simp add: formatPhoneNumber_twice)
qed

text \<open>
  Claim C5: the local form and the form with the country code both normalize to the
  international form, and in general the code computes what the specification's four steps
  describe: strip the non-digits, replace a leading 0 with 234, prepend 234 when the digits
  do not start with 234, prefix a plus sign.
\<close>

theorem C5_formatPhoneNumber_local_to_international:
  "formatPhoneNumber ''08012345678'' = ''+2348012345678''
   \<and> formatPhoneNumber ''2348012345678'' = ''+2348012345678''
   \<and> formatPhoneNumber phone = normalize_spec phone"
proof -
  have a: "formatPhoneNumber ''08012345678'' = ''+2348012345678''"
    by (simp add: formatPhoneNumber_def startsWith_def isDigit_def charCode_def)
  have b: "formatPhoneNumber ''2348012345678'' = ''+2348012345678''"
    by (simp add: formatPhoneNumber_def startsWith_def isDigit_def charCode_def)
  have c: "formatPhoneNumber phone = normalize_spec phone"
  proof (cases "filter isDigit phone")
    case Nil
    then show ?thesis
      by (simp add: formatPhoneNumber_def normalize_spec_def startsWith_def)
  next
    case (Cons d ds)
    then show ?thesis
      by (auto simp: formatPhoneNumber_def normalize_spec_def startsWith_def Let_def)
  qed
  from a b c show ?thesis by simp
qed

text \<open>
  Claim C10: a string is a phone candidate exactly when it holds between 10 and 15 digits;
  the prefix tests exclude nothing, since the last disjunct (at least 10 digits) holds
  whenever the length check has passed.
\<close>

theorem C10_isPhoneNumber_iff_digit_count:
  "isPhoneNumber str =
     (10 \<le> length (filter isDigit str) \<and> length (filter isDigit str) \<le> 15)"
  by (auto simp: isPhoneNumber_def Let_def)

section \<open>The labeled format: the claims\<close>

text \<open>
  Claim C7, as stated, fails. The branches of the loop are tried in order, so a line that
  starts with \<^verbatim>\<open>name:\<close> and mentions a phone sets the customer name and no phone number,
  and a line that starts with \<^verbatim>\<open>address:\<close> and mentions an item sets the address and no
  items. On a line with two colons the value taken is the piece between the first and the
  second colon, not the entire text after the first.
\<close>

theorem C7_labeled_branch_priority_counterexample:
  "includes_str (toLowerCase ''Name: Phone Palace'') ''phone''
   \<and> includes_str (toLowerCase ''Name: Phone Palace'') '':''
   \<and> trim (afterFirstColon ''Name: Phone Palace'') = ''Phone Palace''
   \<and> parseLabeledFormat (\<lambda>s. None) [''Name: Phone Palace''] =
       Inr (noFields\<lparr>customerName := Some ''Phone Palace''\<rparr>)
   \<and> includes_str (toLowerCase ''Address: 5 Item Road'') ''item''
   \<and> includes_str (toLowerCase ''Address: 5 Item Road'') '':''
   \<and> trim (afterFirstColon ''Address: 5 Item Road'') = ''5 Item Road''
   \<and> parseLabeledFormat (\<lambda>s. None) [''Address: 5 Item Road''] =
       Inr (noFields\<lparr>address := Some ''5 Item Road''\<rparr>)
   \<and> trim (afterFirstColon ''Items: rice: 2 plates'') = ''rice: 2 plates''
   \<and> parseLabeledFormat (\<lambda>s. None) [''Items: rice: 2 plates''] =
       Inr (noFields\<lparr>items := Some ''rice''\<rparr>)"
  by code_simp

text \<open>
  Claim C7, amended: when a line reaches the phone branch (it does not start with
  \<^verbatim>\<open>name:\<close> and contains \<^verbatim>\<open>phone\<close> and a colon), holds exactly one colon, and no later
  line reaches the phone branch, the phone number of the result is the entire text after
  that colon, trimmed. Likewise for a line that reaches the items branch (no earlier branch
  takes it, and it contains \<^verbatim>\<open>item\<close> and a colon) and the items. Nothing is stated about
  lines with more than one colon.
\<close>

theorem C7_labeled_value_is_text_after_single_colon:
  "(phoneLabeled line \<and> oneColon line \<and> list_all (\<lambda>x. \<not> phoneLabeled x) after \<longrightarrow>
      (\<exists>r. parseLabeledFormat parseDate (before @ line # after) = Inr r \<and>
           phoneNumber r = Some (trim (afterFirstColon line))))
   \<and> (itemsLabeled line \<and> oneColon line \<and> list_all (\<lambda>x. \<not> itemsLabeled x) after \<longrightarrow>
      (\<exists>r. parseLabeledFormat parseDate (before @ line # after) = Inr r \<and>
           items r = Some (trim (afterFirstColon line))))"
  using parseLabeledFormat_phone parseLabeledFormat_items by blast

text \<open>The amended claim C7 at the labeled message of the specification's scenario.\<close>

theorem C7_labeled_value_witness:
  "phoneLabeled ''Phone: 08012345678'' \<and> oneColon ''Phone: 08012345678''
   \<and> (\<exists>r. parseLabeledFormat (\<lambda>s. None)
            [''Name: Amaka Obi'', ''Phone: 08012345678'', ''Address: 12 Allen Avenue, Ikeja'',
             ''Items: 2x Jollof rice, 1 chicken''] = Inr r
          \<and> phoneNumber r = Some ''08012345678'')
   \<and> itemsLabeled ''Items: 2x Jollof rice, 1 chicken''
   \<and> oneColon ''Items: 2x Jollof rice, 1 chicken''
   \<and> (\<exists>r. parseLabeledFormat (\<lambda>s. None)
            [''Name: Amaka Obi'', ''Phone: 08012345678'', ''Address: 12 Allen Avenue, Ikeja'',
             ''Items: 2x Jollof rice, 1 chicken''] = Inr r
          \<and> items r = Some ''2x Jollof rice, 1 chicken'')"
proof -
  have p1: "phoneLabeled ''Phone: 08012345678''" by code_simp
  have p2: "oneColon ''Phone: 08012345678''" by code_simp
  have p3: "list_all (\<lambda>x. \<not> phoneLabeled x)
              [''Address: 12 Allen Avenue, Ikeja'', ''Items: 2x Jollof rice, 1 chicken'']"
    by code_simp
  have p4: "trim (afterFirstColon ''Phone: 08012345678'') = ''08012345678''" by code_simp
  have i1: "itemsLabeled ''Items: 2x Jollof rice, 1 chicken''" by code_simp
  have i2: "oneColon ''Items: 2x Jollof rice, 1 chicken''" by code_simp
  have i3: "list_all (\<lambda>x. \<not> itemsLabeled x) []" by simp
  have i4: "trim (afterFirstColon ''Items: 2x Jollof rice, 1 chicken'') =
              ''2x Jollof rice, 1 chicken''" by code_simp
  have a: "\<exists>r. parseLabeledFormat (\<lambda>s. None)
            ([''Name: Amaka Obi''] @ ''Phone: 08012345678'' #
             [''Address: 12 Allen Avenue, Ikeja'', ''Items: 2x Jollof rice, 1 chicken'']) = Inr r
          \<and> phoneNumber r = Some (trim (afterFirstColon ''Phone: 08012345678''))"
    using C7_labeled_value_is_text_after_single_colon
      [of "''Phone: 08012345678''"
          "[''Address: 12 Allen Avenue, Ikeja'', ''Items: 2x Jollof rice, 1 chicken'']"
          "\<lambda>s. None" "[''Name: Amaka Obi'']"] p1 p2 p3
    by blast
  have b: "\<exists>r. parseLabeledFormat (\<lambda>s. None)
            ([''Name: Amaka Obi'', ''Phone: 08012345678'', ''Address: 12 Allen Avenue, Ikeja''] @
             ''Items: 2x Jollof rice, 1 chicken'' # []) = Inr r
          \<and> items r = Some (trim (afterFirstColon ''Items: 2x Jollof rice, 1 chicken''))"
    using C7_labeled_value_is_text_after_single_colon
      [of "''Items: 2x Jollof rice, 1 chicken''" "[]" "\<lambda>s. None"
          "[''Name: Amaka Obi'', ''Phone: 08012345678'', ''Address: 12 Allen Avenue, Ikeja'']"]
      i1 i2 i3
    by blast
  from a b p1 p2 p4 i1 i2 i4 show ?thesis by simp
qed

section \<open>parseOrder: the claims\<close>

text \<open>
  Claim C6: \<^verbatim>\<open>parseOrder\<close> never throws (the \<^verbatim>\<open>try\<close> block always returns, so the
  \<^verbatim>\<open>catch\<close> is never taken); it returns \<^verbatim>\<open>null\<close> exactly when fewer than 3 trimmed
  non-empty lines exist or one of customerName, phoneNumber, address, items is still
  \<^verbatim>\<open>null\<close> after merging; the delivery date plays no part in the rejection (the outcome is
  the same with a date parser that never finds a date); and every accepted draft has its four
  required fields non-empty and free of surrounding white space.
\<close>

theorem C6_parseOrder_rejects_exactly_incomplete_drafts:
  "(\<exists>r. parseOrder_try parseDate messageBody senderName = Inr r)
   \<and> (parseOrder parseDate messageBody senderName = None \<longleftrightarrow>
        length (messageLines messageBody) < 3 \<or>
        (\<exists>m. mergeFields parseDate (messageLines messageBody) = Inr m \<and>
             (customerName m = None \<or> phoneNumber m = None \<or> address m = None \<or>
              items m = None)))
   \<and> ((parseOrder parseDate messageBody senderName = None) =
        (parseOrder (\<lambda>line. None) messageBody senderName = None))
   \<and> (\<forall>d. parseOrder parseDate messageBody senderName = Some d \<longrightarrow>
          od_customerName d \<noteq> [] \<and> trim (od_customerName d) = od_customerName d \<and>
          od_phoneNumber d \<noteq> [] \<and> trim (od_phoneNumber d) = od_phoneNumber d \<and>
          od_address d \<noteq> [] \<and> trim (od_address d) = od_address d \<and>
          od_items d \<noteq> [] \<and> trim (od_items d) = od_items d)"
  using parseOrder_try_returns [of parseDate messageBody senderName]
    parseOrder_None_iff [of parseDate messageBody senderName]
    parseOrder_date_independent [of parseDate messageBody senderName "\<lambda>line. None"]
    parseOrder_Some_trimmed [of parseDate messageBody senderName]
  by blast

text \<open>Claim C6 at the labeled message of the specification's end-to-end scenario.\<close>

theorem C6_parseOrder_witness:
  "parseOrder (\<lambda>line. if line = ''Tomorrow'' then Some ''2024-01-16'' else None)
     (''Name: Amaka Obi'' @ [CHR 0x0A] @ ''Phone: 08012345678'' @ [CHR 0x0A] @
      ''Address: 12 Allen Avenue, Ikeja'' @ [CHR 0x0A] @
      ''Items: 2x Jollof rice, 1 chicken'' @ [CHR 0x0A] @ ''Tomorrow'') ''Sales'' =
     Some \<lparr>od_customerName = ''Amaka Obi'', od_phoneNumber = ''08012345678'',
           od_address = ''12 Allen Avenue, Ikeja'', od_items = ''2x Jollof rice, 1 chicken'',
           od_deliveryDate = Some ''2024-01-16'', od_addedBy = ''Sales''\<rparr>
   \<and> trim ''Amaka Obi'' = ''Amaka Obi'' \<and> trim ''08012345678'' = ''08012345678''
   \<and> trim ''12 Allen Avenue, Ikeja'' = ''12 Allen Avenue, Ikeja''
   \<and> trim ''2x Jollof rice, 1 chicken'' = ''2x Jollof rice, 1 chicken''
   \<and> parseOrder (\<lambda>line. None)
     (''Name: Amaka Obi'' @ [CHR 0x0A] @ ''Phone: 08012345678'' @ [CHR 0x0A] @
      ''Address: 12 Allen Avenue, Ikeja'' @ [CHR 0x0A] @
      ''Items: 2x Jollof rice, 1 chicken'' @ [CHR 0x0A] @ ''Tomorrow'') ''Sales'' \<noteq> None"
proof -
  let ?pd = "\<lambda>line. if line = ''Tomorrow'' then Some ''2024-01-16'' else None"
  let ?body = "''Name: Amaka Obi'' @ [CHR 0x0A] @ ''Phone: 08012345678'' @ [CHR 0x0A] @
      ''Address: 12 Allen Avenue, Ikeja'' @ [CHR 0x0A] @
      ''Items: 2x Jollof rice, 1 chicken'' @ [CHR 0x0A] @ ''Tomorrow''"
  let ?d = "\<lparr>od_customerName = ''Amaka Obi'', od_phoneNumber = ''08012345678'',
           od_address = ''12 Allen Avenue, Ikeja'', od_items = ''2x Jollof rice, 1 chicken'',
           od_deliveryDate = Some ''2024-01-16'', od_addedBy = ''Sales''\<rparr>"
  have e: "parseOrder ?pd ?body ''Sales'' = Some ?d"
    by code_simp
  from C6_parseOrder_rejects_exactly_incomplete_drafts [of ?pd ?body "''Sales''"]
  have t: "\<forall>d. parseOrder ?pd ?body ''Sales'' = Some d \<longrightarrow>
          od_customerName d \<noteq> [] \<and> trim (od_customerName d) = od_customerName d \<and>
          od_phoneNumber d \<noteq> [] \<and> trim (od_phoneNumber d) = od_phoneNumber d \<and>
          od_address d \<noteq> [] \<and> trim (od_address d) = od_address d \<and>
          od_items d \<noteq> [] \<and> trim (od_items d) = od_items d"
    and i: "(parseOrder ?pd ?body ''Sales'' = None) =
            (parseOrder (\<lambda>line. None) ?body ''Sales'' = None)"
    by blast+
  from t e have "trim (od_customerName ?d) = od_customerName ?d \<and>
      trim (od_phoneNumber ?d) = od_phoneNumber ?d \<and>
      trim (od_address ?d) = od_address ?d \<and> trim (od_items ?d) = od_items ?d"
    by blast
  moreover from i e have "parseOrder (\<lambda>line. None) ?body ''Sales'' \<noteq> None" by simp
  ultimately show ?thesis using e by simp
qed

section \<open>The heuristic classifier: the claim\<close>

text \<open>
  Claim C1 says that exactly 3 remaining lines are assigned by position, without scoring.
  The code holds that positional branch, but the test \<^verbatim>\<open>remainingLines.length >= 3\<close>
  before it sends 3 lines to the scoring procedure, so the branch is never reached (lemma
  \<open>parseUnlabeledFormat_three_remaining\<close>). On the message with the lines \<^verbatim>\<open>Amaka\<close>,
  \<^verbatim>\<open>12 Allen Avenue\<close>, \<^verbatim>\<open>Two large cakes\<close> (name, address, items; no phone or date
  line) the scoring takes the third line as the name and the first as the items; the same
  happens through \<^verbatim>\<open>parseOrder\<close> when a phone line is added.
\<close>

theorem C1_three_lines_are_scored_not_positional:
  "parseUnlabeledFormat (\<lambda>line. None) [''Amaka'', ''12 Allen Avenue'', ''Two large cakes''] =
     \<lparr>customerName = Some ''Two large cakes'', phoneNumber = None,
      address = Some ''12 Allen Avenue'', items = Some ''Amaka'', deliveryDate = None\<rparr>
   \<and> parseOrder (\<lambda>line. None)
       (''Amaka'' @ [CHR 0x0A] @ ''08012345678'' @ [CHR 0x0A] @ ''12 Allen Avenue'' @
        [CHR 0x0A] @ ''Two large cakes'') ''Sales'' =
     Some \<lparr>od_customerName = ''Two large cakes'', od_phoneNumber = ''08012345678'',
           od_address = ''12 Allen Avenue'', od_items = ''Amaka'', od_deliveryDate = None,
           od_addedBy = ''Sales''\<rparr>"
proof -
  have a: "parseUnlabeledFormat (\<lambda>line. None)
             [''Amaka'', ''12 Allen Avenue'', ''Two large cakes''] =
     \<lparr>customerName = Some ''Two large cakes'', phoneNumber = None,
      address = Some ''12 Allen Avenue'', items = Some ''Amaka'', deliveryDate = None\<rparr>"
    by code_simp
  have b: "parseOrder (\<lambda>line. None)
       (''Amaka'' @ [CHR 0x0A] @ ''08012345678'' @ [CHR 0x0A] @ ''12 Allen Avenue'' @
        [CHR 0x0A] @ ''Two large cakes'') ''Sales'' =
     Some \<lparr>od_customerName = ''Two large cakes'', od_phoneNumber = ''08012345678'',
           od_address = ''12 Allen Avenue'', od_items = ''Amaka'', od_deliveryDate = None,
           od_addedBy = ''Sales''\<rparr>"
    by code_simp
  from a b show ?thesis by (rule conjI)
qed

section \<open>The lifecycle: the claims\<close>

text \<open>
  The lifecycle on a store whose history table accepts writes and whose history entries all
  belong to orders: an order that \<^verbatim>\<open>createOrder\<close> creates has status pending and
  exactly one history entry; \<^verbatim>\<open>markOrderAsDelivered\<close> on a cancelled order changes
  nothing and answers that a cancelled order cannot be delivered (the specification's
  \<^verbatim>\<open>InvalidTransition\<close>); on a pending order the first call makes the one transition to
  delivered, and a second call changes nothing and answers that the order is already
  delivered. The last two hold whatever the state of the history table.
\<close>

lemma lifecycle_with_working_history:
  "(\<not> history_failing db \<and> historyConsistent db \<and>
    createOrder db orderId orderData = Inr (row, db') \<longrightarrow>
      status row = ''pending'' \<and> getOrderById db' orderId = Inr (Some row) \<and>
      historyOf db' orderId =
        [\<lparr>h_order_id = orderId, h_status = ''pending'', changed_by = od_addedBy orderData,
          h_timestamp = clock db, h_notes = ''Order created''\<rparr>])
   \<and> (getOrderById db orderId = Inr (Some order) \<and> status order = ''cancelled'' \<longrightarrow>
      markOrderAsDelivered db orderId person = (db, CannotDeliverCancelled orderId))
   \<and> (getOrderById db orderId = Inr (Some order) \<and> status order = ''pending'' \<longrightarrow>
      (\<exists>db1 delivered.
         markOrderAsDelivered db orderId person = (db1, MarkedDelivered orderId person) \<and>
         getOrderById db1 orderId = Inr (Some delivered) \<and>
         delivered = order\<lparr>status := ''delivered'', delivery_person := Some person,
                             delivered_at := Some (clock db)\<rparr> \<and>
         order_history db1 =
           (if history_failing db then order_history db
            else order_history db @
                 [\<lparr>h_order_id = orderId, h_status = ''delivered'', changed_by = person,
                   h_timestamp = clock db, h_notes = ''Status changed to delivered''\<rparr>]) \<and>
         markOrderAsDelivered db1 orderId again = (db1, AlreadyDelivered orderId)))"
proof (intro conjI impI)
  assume a: "\<not> history_failing db \<and> historyConsistent db \<and>
    createOrder db orderId orderData = Inr (row, db')"
  then show "status row = ''pending''" using createOrder_lifecycle(1) by blast
  from a show "getOrderById db' orderId = Inr (Some row)"
    using createOrder_lifecycle(2) by blast
  from a show "historyOf db' orderId =
        [\<lparr>h_order_id = orderId, h_status = ''pending'', changed_by = od_addedBy orderData,
          h_timestamp = clock db, h_notes = ''Order created''\<rparr>]"
    using createOrder_lifecycle(3) by blast
next
  assume "getOrderById db orderId = Inr (Some order) \<and> status order = ''cancelled''"
  then show "markOrderAsDelivered db orderId person = (db, CannotDeliverCancelled orderId)"
    by (simp add: markOrderAsDelivered_cancelled)
next
  assume a: "getOrderById db orderId = Inr (Some order) \<and> status order = ''pending''"
  then obtain db1 delivered where
    d: "markOrderAsDelivered db orderId person = (db1, MarkedDelivered orderId person)"
      "getOrderById db1 orderId = Inr (Some delivered)"
      "delivered = order\<lparr>status := ''delivered'', delivery_person := Some person,
                             delivered_at := Some (clock db)\<rparr>"
      "order_history db1 =
           (if history_failing db then order_history db
            else order_history db @
                 [\<lparr>h_order_id = orderId, h_status = ''delivered'', changed_by = person,
                   h_timestamp = clock db, h_notes = ''Status changed to delivered''\<rparr>])"
    using markOrderAsDelivered_pending [of db orderId order person] by blast
  from d(3) have "status delivered = ''delivered''" by simp
  with d(2) have "markOrderAsDelivered db1 orderId again = (db1, AlreadyDelivered orderId)"
    by (rule markOrderAsDelivered_delivered)
  with d show "\<exists>db1 delivered.
         markOrderAsDelivered db orderId person = (db1, MarkedDelivered orderId person) \<and>
         getOrderById db1 orderId = Inr (Some delivered) \<and>
         delivered = order\<lparr>status := ''delivered'', delivery_person := Some person,
                             delivered_at := Some (clock db)\<rparr> \<and>
         order_history db1 =
           (if history_failing db then order_history db
            else order_history db @
                 [\<lparr>h_order_id = orderId, h_status = ''delivered'', changed_by = person,
                   h_timestamp = clock db, h_notes = ''Status changed to delivered''\<rparr>]) \<and>
         markOrderAsDelivered db1 orderId again = (db1, AlreadyDelivered orderId)"
    by blast
qed

text \<open>The sample order: created in the empty store, cancelled, delivered twice.\<close>

lemma lifecycle_with_working_history_example:
  "createOrder emptyStore ''ORD20240115042'' sampleDraft = Inr (sampleOrder, pendingStore)
   \<and> status sampleOrder = ''pending''
   \<and> historyOf pendingStore ''ORD20240115042'' = [createdEntry]
   \<and> markOrderAsDelivered (fst (cancelOrder pendingStore ''ORD20240115042'' ''Bola''))
        ''ORD20240115042'' ''Rider'' =
      (fst (cancelOrder pendingStore ''ORD20240115042'' ''Bola''),
       CannotDeliverCancelled ''ORD20240115042'')
   \<and> (\<exists>db1. markOrderAsDelivered pendingStore ''ORD20240115042'' ''Rider'' =
               (db1, MarkedDelivered ''ORD20240115042'' ''Rider'')
            \<and> markOrderAsDelivered db1 ''ORD20240115042'' ''Rider'' =
               (db1, AlreadyDelivered ''ORD20240115042''))"
proof -
  let ?id = "''ORD20240115042''"
  let ?cancelled = "fst (cancelOrder pendingStore ?id ''Bola'')"
  have h1: "\<not> history_failing emptyStore" by (simp add: emptyStore_def)
  have h2: "historyConsistent emptyStore" by (simp add: emptyStore_def historyConsistent_def)
  have h3: "createOrder emptyStore ?id sampleDraft = Inr (sampleOrder, pendingStore)"
    by code_simp
  have h4: "getOrderById ?cancelled ?id =
              Inr (Some (sampleOrder\<lparr>status := ''cancelled'', cancelled_at := Some 100\<rparr>))"
    by code_simp
  have h5: "status (sampleOrder\<lparr>status := ''cancelled'', cancelled_at := Some 100\<rparr>) =
              ''cancelled''" by simp
  have h6: "getOrderById pendingStore ?id = Inr (Some sampleOrder)" by code_simp
  have h7: "status sampleOrder = ''pending''" by (simp add: sampleOrder_def)
  have e: "createdEntry = \<lparr>h_order_id = ?id, h_status = ''pending'',
             changed_by = od_addedBy sampleDraft, h_timestamp = clock emptyStore,
             h_notes = ''Order created''\<rparr>"
    by (simp add: createdEntry_def sampleDraft_def emptyStore_def)
  have p1: "historyOf pendingStore ?id = [createdEntry]"
    using lifecycle_with_working_history [where db = emptyStore and orderId = ?id
        and orderData = sampleDraft and row = sampleOrder and db' = pendingStore]
      h1 h2 h3 e by simp
  have p2: "markOrderAsDelivered ?cancelled ?id ''Rider'' =
              (?cancelled, CannotDeliverCancelled ?id)"
    using lifecycle_with_working_history [where db = ?cancelled and orderId = ?id
        and order = "sampleOrder\<lparr>status := ''cancelled'', cancelled_at := Some 100\<rparr>"
        and person = "''Rider''"] h4 h5 by blast
  have p3: "\<exists>db1. markOrderAsDelivered pendingStore ?id ''Rider'' =
               (db1, MarkedDelivered ?id ''Rider'')
            \<and> markOrderAsDelivered db1 ?id ''Rider'' = (db1, AlreadyDelivered ?id)"
    using lifecycle_with_working_history [where db = pendingStore and orderId = ?id
        and order = sampleOrder and person = "''Rider''" and again = "''Rider''"] h6 h7
    by blast
  from h3 h7 p1 p2 p3 show ?thesis by blast
qed

text \<open>
  Claim C2 says that creating an order yields status pending and exactly one history
  entry. When the insert into the history table fails, \<^verbatim>\<open>addOrderHistory\<close> catches the
  failure and only logs it, so \<^verbatim>\<open>createOrder\<close> still returns the created row: the sample
  order is created, is pending and is found in the store, and it has no history entry. The
  rest of the claim (a cancelled order is not delivered; of two deliveries of a pending
  order the first makes the transition and the second is told the order is already
  delivered) holds, as the lemma above shows.
\<close>

theorem C2_created_order_without_history_entry:
  "createOrder historyDownStore ''ORD20240115042'' sampleDraft =
     Inr (sampleOrder, historyDownStore\<lparr>orders := [sampleOrder]\<rparr>)
   \<and> status sampleOrder = ''pending''
   \<and> getOrderById (historyDownStore\<lparr>orders := [sampleOrder]\<rparr>) ''ORD20240115042'' =
       Inr (Some sampleOrder)
   \<and> historyOf (historyDownStore\<lparr>orders := [sampleOrder]\<rparr>) ''ORD20240115042'' = []
   \<and> length (order_history (historyDownStore\<lparr>orders := [sampleOrder]\<rparr>)) = 0"
  by code_simp

text \<open>
  Claim C3 says that no failure of a store write is swallowed. \<^verbatim>\<open>addOrderHistory\<close>
  catches the failure of its insert and only logs it, where \<^verbatim>\<open>createOrder\<close> and
  \<^verbatim>\<open>updateOrderStatus\<close> log and rethrow. With the history table failing, creating the
  sample order returns the row as if nothing had happened, the status update does the same,
  and the delivery group is told that the order was marked as delivered, while no history
  entry exists.
\<close>

theorem C3_history_failure_is_swallowed:
  "createOrder historyDownStore ''ORD20240115042'' sampleDraft =
     Inr (sampleOrder, historyDownStore\<lparr>orders := [sampleOrder]\<rparr>)
   \<and> insertHistory (historyDownStore\<lparr>orders := [sampleOrder]\<rparr>) ''ORD20240115042''
        ''pending'' ''Sales'' ''Order created'' = Inl QueryFailed
   \<and> updateOrderStatus (historyDownStore\<lparr>orders := [sampleOrder]\<rparr>) ''ORD20240115042''
        ''delivered'' ''Rider'' (Some ''Rider'') =
     Inr (sampleOrder\<lparr>status := ''delivered'', delivery_person := Some ''Rider'',
                       delivered_at := Some 100\<rparr>,
          historyDownStore\<lparr>orders :=
            [sampleOrder\<lparr>status := ''delivered'', delivery_person := Some ''Rider'',
                          delivered_at := Some 100\<rparr>]\<rparr>)
   \<and> snd (markOrderAsDelivered (historyDownStore\<lparr>orders := [sampleOrder]\<rparr>)
             ''ORD20240115042'' ''Rider'') = MarkedDelivered ''ORD20240115042'' ''Rider''
   \<and> order_history (fst (markOrderAsDelivered (historyDownStore\<lparr>orders := [sampleOrder]\<rparr>)
             ''ORD20240115042'' ''Rider'')) = []"
  by code_simp

text \<open>
  Claim C8 says that \<^verbatim>\<open>done #ORD20240115042\<close> targets the order ORD20240115042. The
  handler takes the id from the body after \<^verbatim>\<open>toLowerCase\<close>, so it looks for
  \<^verbatim>\<open>ord20240115042\<close>, which is not the id of the stored order, and answers that the order
  was not found; the same for \<^verbatim>\<open>cancel #\<close>. The reply path, which takes the id from the
  quoted message as it is written, finds the order.
\<close>

theorem C8_command_id_is_lower_cased:
  "handleDeliveryGroupMessage pendingStore
     \<lparr>msg_body = ''done #ORD20240115042'', hasQuotedMsg = False, quotedBody = [],
      isMe = False, sender = ''Rider''\<rparr> =
     (pendingStore, [NotFound ''ord20240115042''])
   \<and> handleDeliveryGroupMessage pendingStore
     \<lparr>msg_body = ''cancel #ORD20240115042'', hasQuotedMsg = False, quotedBody = [],
      isMe = False, sender = ''Rider''\<rparr> =
     (pendingStore, [NotFound ''ord20240115042''])
   \<and> snd (handleDeliveryGroupMessage pendingStore
     \<lparr>msg_body = ''done'', hasQuotedMsg = True, quotedBody = ''Order #ORD20240115042'',
      isMe = False, sender = ''Rider''\<rparr>) =
     [MarkedDelivered ''ORD20240115042'' ''Rider'']"
  by code_simp

text \<open>
  Claim C9 says that of two concurrent transition requests at most one succeeds. Each
  handler reads the order, waits, and then writes without a condition on the status. Under
  the schedule in which a delivery request and a cancellation both read the pending order
  before either writes, both writes go through and both senders are told of success: the
  order ends cancelled with its delivery time and delivery person still set, and the
  history shows both transitions. Under the schedule that lets the delivery finish first,
  the cancellation is refused.
\<close>

theorem C9_interleaved_deliver_and_cancel_both_succeed:
  "snd (run [0, 1, 0, 1]
         (pendingStore, [Started (Deliver ''ORD20240115042'' ''Ada''),
                         Started (Cancel ''ORD20240115042'' ''Bola'')])) =
     [Finished (MarkedDelivered ''ORD20240115042'' ''Ada''),
      Finished (CancelledBy ''ORD20240115042'' ''Bola'')]
   \<and> orders (fst (run [0, 1, 0, 1]
         (pendingStore, [Started (Deliver ''ORD20240115042'' ''Ada''),
                         Started (Cancel ''ORD20240115042'' ''Bola'')]))) =
     [sampleOrder\<lparr>status := ''cancelled'', delivery_person := Some ''Ada'',
                   delivered_at := Some 102, cancelled_at := Some 103\<rparr>]
   \<and> map h_status (historyOf (fst (run [0, 1, 0, 1]
         (pendingStore, [Started (Deliver ''ORD20240115042'' ''Ada''),
                         Started (Cancel ''ORD20240115042'' ''Bola'')]))) ''ORD20240115042'') =
     [''pending'', ''delivered'', ''cancelled'']
   \<and> snd (run [0, 0, 1, 1]
         (pendingStore, [Started (Deliver ''ORD20240115042'' ''Ada''),
                         Started (Cancel ''ORD20240115042'' ''Bola'')])) =
     [Finished (MarkedDelivered ''ORD20240115042'' ''Ada''),
      Finished (CannotCancelDelivered ''ORD20240115042'')]"
  by code_simp

end
